theory Spec2Isabelle
  imports Complex_Main
begin

section \<open>Python exceptions\<close>

text \<open>
  Every exception the modelled code can raise is a value of this type; a function that may
  raise returns \<open>error + 'a\<close> with \<open>Inl\<close> for the exception. \<open>KeyError\<close> carries the
  missing key, as Python's does.
\<close>

datatype error =
    KeyError string
  | TypeError
  | ValueError
  | AttributeError
  | InvalidOperation
  | ValidationError
  | DownloadError

section \<open>Binary cache manager (prisma/binaries/binaries.py)\<close>

text \<open>
  \<open>Binary\<close> and its subclass \<open>Engine\<close> are constructed with the two keyword arguments
  \<open>name\<close> and \<open>env\<close>.
\<close>

record binary =
  name :: string
  env :: string

definition ENGINES :: "binary list" where
  "ENGINES =
     [\<lparr>name = ''query-engine'', env = ''PRISMA_QUERY_ENGINE_BINARY''\<rparr>,
      \<lparr>name = ''migration-engine'', env = ''PRISMA_MIGRATION_ENGINE_BINARY''\<rparr>,
      \<lparr>name = ''introspection-engine'', env = ''PRISMA_INTROSPECTION_ENGINE_BINARY''\<rparr>,
      \<lparr>name = ''prisma-fmt'', env = ''PRISMA_FMT_BINARY''\<rparr>]"

text \<open>
  What \<open>binaries.py\<close> imports and calls but does not define: the process environment
  (\<open>os.environ\<close>), \<open>binary.path.exists()\<close>, \<open>binary.download()\<close> (which may raise and may
  change the outside world), \<open>config.binary_cache_dir\<close> and the constant
  \<open>PRISMA_CLI_NAME\<close>. They are parameters of the model; \<open>'w\<close> is the state of the outside
  world (file system, network).
\<close>

record 'w externals =
  environ :: "'w \<Rightarrow> string \<rightharpoonup> string"
  path_exists :: "binary \<Rightarrow> 'w \<Rightarrow> bool"
  download :: "binary \<Rightarrow> 'w \<Rightarrow> error option \<times> 'w"
  binary_cache_dir :: string
  PRISMA_CLI_NAME :: string

definition BINARIES :: "'w externals \<Rightarrow> binary list" where
  "BINARIES X = ENGINES @ [\<lparr>name = PRISMA_CLI_NAME X, env = ''PRISMA_CLI_BINARY''\<rparr>]"

text \<open>
  Truth value of \<open>os.environ.get(k)\<close>: \<open>None\<close> (unset) and the empty string are false,
  every other string is true.
\<close>

definition truthy :: "string option \<Rightarrow> bool" where
  "truthy v = (case v of None \<Rightarrow> False | Some s \<Rightarrow> s \<noteq> [])"

definition uses_custom_binaries :: "(string \<rightharpoonup> string) \<Rightarrow> bool" where
  "uses_custom_binaries e =
     (if truthy (e ''PRISMA_QUERY_ENGINE_BINARY'')
         \<and> truthy (e ''PRISMA_MIGRATION_ENGINE_BINARY'')
         \<and> truthy (e ''PRISMA_INTROSPECTION_ENGINE_BINARY'')
         \<and> truthy (e ''PRISMA_FMT_BINARY'')
      then True
      else False)"

text \<open>
  First loop of \<open>ensure_cached\<close>: \<open>binaries\<close> collects, in iteration order, every binary
  whose path does not exist. The \<open>log.debug\<close> calls are not modelled.
\<close>

fun find_missing :: "'w externals \<Rightarrow> 'w \<Rightarrow> binary list \<Rightarrow> binary list \<Rightarrow> binary list" where
  "find_missing X w [] binaries = binaries"
| "find_missing X w (b # rest) binaries =
     (if path_exists X b w then find_missing X w rest binaries
      else find_missing X w rest (binaries @ [b]))"

text \<open>
  Second loop: \<open>binary.download()\<close> for each collected binary, in order. The model records
  the binaries on which \<open>download\<close> was called (\<open>called\<close>); an exception ends the loop. The
  progress bar is presentation only and is not modelled.
\<close>

fun download_each ::
  "'w externals \<Rightarrow> binary list \<Rightarrow> binary list \<Rightarrow> 'w \<Rightarrow> binary list \<times> error option \<times> 'w" where
  "download_each X [] called w = (called, None, w)"
| "download_each X (b # rest) called w =
     (case download X b w of
        (Some e, w') \<Rightarrow> (called @ [b], Some e, w')
      | (None, w') \<Rightarrow> download_each X rest (called @ [b]) w')"

text \<open>
  The outcome of a call: the binaries \<open>download\<close> was called on, in call order; the value
  returned or the exception raised; and the outside world afterwards.
\<close>

record 'w outcome =
  downloads :: "binary list"
  returned :: "error + string"
  world :: 'w

definition ensure_cached :: "'w externals \<Rightarrow> 'w \<Rightarrow> 'w outcome" where
  "ensure_cached X w =
     (let binaries = find_missing X w (BINARIES X) []
      in if binaries = [] \<or> uses_custom_binaries (environ X w)
         then \<lparr>downloads = [], returned = Inr (binary_cache_dir X), world = w\<rparr>
         else (case download_each X binaries [] w of
                 (called, Some e, w') \<Rightarrow> \<lparr>downloads = called, returned = Inl e, world = w'\<rparr>
               | (called, None, w') \<Rightarrow>
                   \<lparr>downloads = called, returned = Inr (binary_cache_dir X), world = w'\<rparr>))"

text \<open>
  The outside world after \<open>download\<close> has been called on the binaries \<open>bs\<close>, one after the
  other.
\<close>

definition world_after :: "'w externals \<Rightarrow> binary list \<Rightarrow> 'w \<Rightarrow> 'w" where
  "world_after X bs w = foldl (\<lambda>w b. snd (download X b w)) w bs"


text \<open>
  Modelled from the spec: \<open>Binary.path\<close> and \<open>Binary.download\<close> (class \<open>Binary\<close> is not among
  the sources). The spec says that existence is checked on the file system at a path
  computed from the binary's name, and that a download persists the binary to that path
  or fails. This gives an in-memory outside world on which the cache manager can be run:
  the environment as an association list and the names of the cached binaries;
  \<open>unreachable\<close> lists the names whose transfer fails.
\<close>

record mem_world =
  vars :: "(string \<times> string) list"
  cached :: "string list"

definition mem_download :: "string list \<Rightarrow> binary \<Rightarrow> mem_world \<Rightarrow> error option \<times> mem_world" where
  "mem_download unreachable b w =
     (if name b \<in> set unreachable then (Some DownloadError, w)
      else (None, w\<lparr>cached := cached w @ [name b]\<rparr>))"

definition mem_externals :: "string list \<Rightarrow> mem_world externals" where
  "mem_externals unreachable =
     \<lparr>environ = (\<lambda>w. map_of (vars w)),
      path_exists = (\<lambda>b w. name b \<in> set (cached w)),
      download = mem_download unreachable,
      binary_cache_dir = ''/cache'',
      PRISMA_CLI_NAME = ''prisma-cli''\<rparr>"

section \<open>Raw query results (prisma/_raw_query.py)\<close>

subsection \<open>Values\<close>

text \<open>
  The rows handed to this module are decoded JSON: \<open>None\<close>, booleans, integers, floats,
  strings, lists and dictionaries with string keys (in insertion order, keys distinct).
\<close>

datatype json =
    JNull
  | JBool bool
  | JInt int
  | JFloat real
  | JStr string
  | JArr "json list"
  | JObj "(string \<times> json) list"

type_synonym row = "(string \<times> json) list"

text \<open>
  \<open>datetime.datetime\<close>: the calendar and clock fields, \<open>tzinfo\<close> (\<open>None\<close>, or a fixed
  UTC offset, here in microseconds) and \<open>fold\<close>.
\<close>

record datetime =
  year :: int
  month :: int
  day :: int
  hour :: int
  minute :: int
  second :: int
  microsecond :: int
  tzinfo :: "int option"
  dfold :: int

text \<open>
  \<open>decimal.Decimal\<close>: a finite number is a sign (0 or 1), the coefficient as a string of
  decimal digits and an exponent; the special values are the infinities and the (quiet or
  signalling) NaNs with their diagnostic digits.
\<close>

datatype decimal =
    Dec nat string int
  | DecInf nat
  | DecNaN nat bool string

text \<open>
  The values the deserializers return: a value of a type that JSON also has (\<open>Raw\<close>; this
  is how a value handed through unchanged appears, and also the \<open>int\<close> and \<open>str\<close> results
  of \<open>int()\<close> and \<open>json.dumps\<close>), a list built by the module, or one of the rich types.
\<close>

datatype pyval =
    Raw json
  | PList "pyval list"
  | PDatetime datetime
  | PDecimal decimal
  | PBase64 string

type_synonym pydict = "(string \<times> pyval) list"

subsection \<open>Python operations used by the module\<close>

text \<open>\<open>obj[key]\<close> with a string key: only a dictionary can be subscripted by a string.\<close>

definition getitem :: "json \<Rightarrow> string \<Rightarrow> error + json" where
  "getitem obj key =
     (case obj of
        JObj d \<Rightarrow> (case map_of d key of None \<Rightarrow> Inl (KeyError key) | Some v \<Rightarrow> Inr v)
      | _ \<Rightarrow> Inl TypeError)"

text \<open>
  \<open>for entry in value\<close>: a list yields its elements, a string its characters (as strings
  of length one), a dictionary its keys; nothing else is iterable.
\<close>

definition iterate :: "json \<Rightarrow> error + json list" where
  "iterate v =
     (case v of
        JArr xs \<Rightarrow> Inr xs
      | JStr s \<Rightarrow> Inr (map (\<lambda>c. JStr [c]) s)
      | JObj d \<Rightarrow> Inr (map (\<lambda>kv. JStr (fst kv)) d)
      | _ \<Rightarrow> Inl TypeError)"

text \<open>
  \<open>table[k] if k in table else ...\<close> for a dictionary with string keys: a list or a
  dictionary is unhashable, so the membership test raises; any other value that is not a
  string is simply absent.
\<close>

definition lookup :: "(string \<rightharpoonup> 'f) \<Rightarrow> json \<Rightarrow> error + 'f option" where
  "lookup table k =
     (case k of
        JStr t \<Rightarrow> Inr (table t)
      | JArr _ \<Rightarrow> Inl TypeError
      | JObj _ \<Rightarrow> Inl TypeError
      | _ \<Rightarrow> Inr None)"

text \<open>\<open>d[key] = v\<close>: an existing key keeps its position, a new key goes last.\<close>

fun setitem :: "('k \<times> 'v) list \<Rightarrow> 'k \<Rightarrow> 'v \<Rightarrow> ('k \<times> 'v) list" where
  "setitem [] key v = [(key, v)]"
| "setitem ((k, x) # d) key v = (if k = key then (k, v) # d else (k, x) # setitem d key v)"

text \<open>A list comprehension whose element expression may raise: the first exception ends it.\<close>

fun traverse :: "('a \<Rightarrow> error + 'b) \<Rightarrow> 'a list \<Rightarrow> error + 'b list" where
  "traverse f [] = Inr []"
| "traverse f (x # xs) =
     (case f x of
        Inl e \<Rightarrow> Inl e
      | Inr y \<Rightarrow> (case traverse f xs of Inl e \<Rightarrow> Inl e | Inr ys \<Rightarrow> Inr (y # ys)))"

text \<open>The call raised.\<close>

definition fails :: "error + 'a \<Rightarrow> bool" where
  "fails r = (case r of Inl _ \<Rightarrow> True | Inr _ \<Rightarrow> False)"

text \<open>
  Library functions the module calls and does not define: the builtin \<open>int\<close>,
  \<open>datetime.fromisoformat\<close>, \<open>Base64.fromb64\<close>, \<open>json.dumps\<close>, \<open>Decimal\<close> applied to
  something that is not a string, and \<open>format(value, '')\<close> (the text an f-string inserts)
  for a value that is not a string. They are parameters of the model.
\<close>

record pylib =
  py_int :: "json \<Rightarrow> error + int"
  fromisoformat :: "json \<Rightarrow> error + datetime"
  fromb64 :: "json \<Rightarrow> error + string"
  dumps :: "json \<Rightarrow> string"
  Decimal_other :: "json \<Rightarrow> error + decimal"
  py_format :: "json \<Rightarrow> string"

subsection \<open>\<open>Decimal(str)\<close> and \<open>str(Decimal)\<close>\<close>

text \<open>
  The constructor \<open>Decimal(value)\<close> for a string and \<open>Decimal.__str__\<close> follow CPython's
  \<open>_pydecimal\<close>: the string is stripped of surrounding whitespace and of underscores and
  matched against \<open>[-+]?(digits[.digits][E[-+]digits] | Inf[inity] | [s]NaN[digits])\<close>,
  case-insensitively; \<open>__str__\<close> is the to-scientific-string conversion with the default
  \<open>capitals = 1\<close>. Strings are ASCII here.
\<close>

definition is_digit :: "char \<Rightarrow> bool" where
  "is_digit c = (c \<in> set ''0123456789'')"

definition is_space :: "char \<Rightarrow> bool" where
  "is_space c = (c \<in> set [CHR 0x09, CHR 0x0A, CHR 0x0B, CHR 0x0C, CHR 0x0D,
                           CHR 0x1C, CHR 0x1D, CHR 0x1E, CHR 0x1F, CHR 0x20])"

definition strip :: "string \<Rightarrow> string" where
  "strip s = rev (dropWhile is_space (rev (dropWhile is_space s)))"

definition digit_val :: "char \<Rightarrow> nat" where
  "digit_val c = of_char c - 48"

definition digits_val :: "string \<Rightarrow> nat" where
  "digits_val ds = foldl (\<lambda>n c. 10 * n + digit_val c) 0 ds"

text \<open>\<open>str(n)\<close> for a natural number.\<close>

fun str_nat :: "nat \<Rightarrow> string" where
  "str_nat n =
     (if n < 10 then [char_of (48 + n)]
      else str_nat (n div 10) @ [char_of (48 + n mod 10)])"

declare str_nat.simps [simp del]

text \<open>
  \<open>str(int(ds))\<close> for a non-empty string of digits: \<open>ds\<close> without its leading zeros, and
  \<open>0\<close> when nothing else is left.
\<close>

definition str_int_digits :: "string \<Rightarrow> string" where
  "str_int_digits ds =
     (case dropWhile (\<lambda>c. c = CHR ''0'') ds of [] \<Rightarrow> ''0'' | r \<Rightarrow> r)"

definition lower :: "char \<Rightarrow> char" where
  "lower c = (if c \<in> set ''ABCDEFGHIJKLMNOPQRSTUVWXYZ'' then char_of (of_char c + (32::nat)) else c)"

definition split_sign :: "string \<Rightarrow> nat \<times> string" where
  "split_sign s =
     (case s of
        [] \<Rightarrow> (0, [])
      | c # r \<Rightarrow> if c = CHR ''-'' then (1, r) else if c = CHR ''+'' then (0, r) else (0, s))"

definition parse_exp :: "string \<Rightarrow> int option" where
  "parse_exp t =
     (let (sg, ds) = split_sign t
      in if ds \<noteq> [] \<and> list_all is_digit ds
         then Some (if sg = 1 then - int (digits_val ds) else int (digits_val ds))
         else None)"

text \<open>The groups \<open>int\<close>, \<open>frac\<close> and \<open>exp\<close> of a finite number, after the sign.\<close>

definition parse_number :: "string \<Rightarrow> (string \<times> string \<times> int) option" where
  "parse_number r =
     (let ip = takeWhile is_digit r;
          r1 = dropWhile is_digit r;
          (fp, r2) = (case r1 of
                        [] \<Rightarrow> ([], [])
                      | c # t \<Rightarrow> if c = CHR ''.'' then (takeWhile is_digit t, dropWhile is_digit t)
                                 else ([], r1))
      in if ip = [] \<and> fp = [] then None
         else (case r2 of
                 [] \<Rightarrow> Some (ip, fp, 0)
               | c # t \<Rightarrow> if c = CHR ''E'' \<or> c = CHR ''e''
                          then (case parse_exp t of None \<Rightarrow> None | Some e \<Rightarrow> Some (ip, fp, e))
                          else None))"

definition parse_special :: "nat \<Rightarrow> string \<Rightarrow> decimal option" where
  "parse_special sg r =
     (let l = map lower r
      in if l = ''inf'' \<or> l = ''infinity'' then Some (DecInf sg)
         else if take 3 l = ''nan'' \<and> list_all is_digit (drop 3 l)
         then Some (DecNaN sg False (dropWhile (\<lambda>c. c = CHR ''0'') (drop 3 l)))
         else if take 4 l = ''snan'' \<and> list_all is_digit (drop 4 l)
         then Some (DecNaN sg True (dropWhile (\<lambda>c. c = CHR ''0'') (drop 4 l)))
         else None)"

definition Decimal_of_str :: "string \<Rightarrow> error + decimal" where
  "Decimal_of_str s =
     (let (sg, r) = split_sign (filter (\<lambda>c. c \<noteq> CHR ''_'') (strip s))
      in case parse_number r of
           Some (ip, fp, e) \<Rightarrow> Inr (Dec sg (str_int_digits (ip @ fp)) (e - int (length fp)))
         | None \<Rightarrow> (case parse_special sg r of
                      Some d \<Rightarrow> Inr d
                    | None \<Rightarrow> Inl InvalidOperation))"

definition Decimal :: "pylib \<Rightarrow> json \<Rightarrow> error + decimal" where
  "Decimal L value = (case value of JStr s \<Rightarrow> Decimal_of_str s | _ \<Rightarrow> Decimal_other L value)"

text \<open>\<open>'%+d' % i\<close>.\<close>

definition fmt_plus_d :: "int \<Rightarrow> string" where
  "fmt_plus_d i = (if i < 0 then ''-'' else ''+'') @ str_nat (nat \<bar>i\<bar>)"

definition sign_str :: "nat \<Rightarrow> string" where
  "sign_str sg = (if sg = 1 then ''-'' else [])"

fun decimal_str :: "decimal \<Rightarrow> string" where
  "decimal_str (Dec sg ds e) =
     (let leftdigits = e + int (length ds);
          dotplace = (if e \<le> 0 \<and> leftdigits > - 6 then leftdigits else 1);
          intpart = (if dotplace \<le> 0 then ''0''
                     else if dotplace \<ge> int (length ds)
                     then ds @ replicate (nat (dotplace - int (length ds))) (CHR ''0'')
                     else take (nat dotplace) ds);
          fracpart = (if dotplace \<le> 0 then ''.'' @ replicate (nat (- dotplace)) (CHR ''0'') @ ds
                      else if dotplace \<ge> int (length ds) then []
                      else ''.'' @ drop (nat dotplace) ds);
          exp = (if leftdigits = dotplace then [] else ''E'' @ fmt_plus_d (leftdigits - dotplace))
      in sign_str sg @ intpart @ fracpart @ exp)"
| "decimal_str (DecInf sg) = sign_str sg @ ''Infinity''"
| "decimal_str (DecNaN sg signal diag) =
     sign_str sg @ (if signal then ''sNaN'' else ''NaN'') @ diag"

subsection \<open>Measures for the recursion through nested values\<close>

fun max_size :: "json list \<Rightarrow> nat" where
  "max_size [] = 0"
| "max_size (x # xs) = max (size x) (max_size xs)"

lemma max_size_le: "(\<And>x. x \<in> set xs \<Longrightarrow> size x \<le> n) \<Longrightarrow> max_size xs \<le> n"
  by (induction xs) auto

lemma size_map_of: "map_of d k = Some v \<Longrightarrow> size v < Suc (size_list (size_prod (\<lambda>x. 0) size) d)"
  by (induction d) (auto split: if_splits)

lemma getitem_size: "getitem obj k = Inr v \<Longrightarrow> size v < size obj"
  by (auto simp: getitem_def split: json.splits option.splits dest: size_map_of)

lemma size_member: "x \<in> set xs \<Longrightarrow> size x < Suc (size_list size xs)"
  by (induction xs) auto

lemma iterate_size: "iterate v = Inr es \<Longrightarrow> max_size es \<le> size v"
proof (rule max_size_le)
  fix x assume "iterate v = Inr es" "x \<in> set es"
  then show "size x \<le> size v"
    by (cases v) (auto simp: iterate_def dest: size_member)
qed


subsection \<open>The deserializers\<close>

text \<open>\<open>dt.replace(tzinfo=tz)\<close>: the same fields with another \<open>tzinfo\<close>.\<close>

definition replace_tzinfo :: "datetime \<Rightarrow> int option \<Rightarrow> datetime" where
  "replace_tzinfo dt tz = dt\<lparr>tzinfo := tz\<rparr>"

definition deserialize_date :: "pylib \<Rightarrow> json \<Rightarrow> bool \<Rightarrow> error + pyval" where
  "deserialize_date L value for_model =
     (case fromisoformat L value of
        Inl e \<Rightarrow> Inl e
      | Inr dt \<Rightarrow> Inr (PDatetime (replace_tzinfo dt None)))"

definition deserialize_datetime :: "pylib \<Rightarrow> json \<Rightarrow> bool \<Rightarrow> error + pyval" where
  "deserialize_datetime L value for_model =
     (case fromisoformat L value of Inl e \<Rightarrow> Inl e | Inr dt \<Rightarrow> Inr (PDatetime dt))"

definition deserialize_bigint :: "pylib \<Rightarrow> json \<Rightarrow> bool \<Rightarrow> error + pyval" where
  "deserialize_bigint L value for_model =
     (case py_int L value of Inl e \<Rightarrow> Inl e | Inr n \<Rightarrow> Inr (Raw (JInt n)))"

definition deserialize_bytes :: "pylib \<Rightarrow> json \<Rightarrow> bool \<Rightarrow> error + pyval" where
  "deserialize_bytes L value for_model =
     (case fromb64 L value of Inl e \<Rightarrow> Inl e | Inr b \<Rightarrow> Inr (PBase64 b))"

definition deserialize_decimal :: "pylib \<Rightarrow> json \<Rightarrow> bool \<Rightarrow> error + pyval" where
  "deserialize_decimal L value for_model =
     (case Decimal L value of Inl e \<Rightarrow> Inl e | Inr d \<Rightarrow> Inr (PDecimal d))"

text \<open>
  The text that \<open>{value}\<close> inserts in an f-string: a string is inserted as it is.
\<close>

definition format_value :: "pylib \<Rightarrow> json \<Rightarrow> string" where
  "format_value L value = (case value of JStr s \<Rightarrow> s | _ \<Rightarrow> py_format L value)"

text \<open>
  The f-string of \<open>_deserialize_time\<close> is \<open>f'1970-01-01T${value}Z'\<close>: in a Python f-string
  only \<open>{value}\<close> is a replacement field, the dollar sign before it is literal text.
\<close>

definition deserialize_time :: "pylib \<Rightarrow> json \<Rightarrow> bool \<Rightarrow> error + pyval" where
  "deserialize_time L value for_model =
     (case fromisoformat L (JStr (''1970-01-01T$'' @ format_value L value @ ''Z'')) of
        Inl e \<Rightarrow> Inl e
      | Inr dt \<Rightarrow> Inr (PDatetime dt))"

definition isinstance_str :: "json \<Rightarrow> bool" where
  "isinstance_str v = (case v of JStr _ \<Rightarrow> True | _ \<Rightarrow> False)"

definition deserialize_json :: "pylib \<Rightarrow> json \<Rightarrow> bool \<Rightarrow> error + pyval" where
  "deserialize_json L value for_model =
     (if \<not> isinstance_str value \<and> for_model then Inr (Raw (JStr (dumps L value)))
      else Inr (Raw value))"

text \<open>
  \<open>DESERIALIZERS\<close> maps \<open>array\<close> to \<open>_deserialize_array\<close>, which itself looks entries up in
  \<open>DESERIALIZERS\<close>. The recursion is written out: the loop of \<open>_deserialize_array\<close> first
  consults the seven other entries and then the \<open>array\<close> entry, and \<open>DESERIALIZERS\<close> is
  defined afterwards with all eight entries; \<open>array_loop_Cons\<close> below states the loop in
  terms of \<open>DESERIALIZERS\<close>.
\<close>

definition scalar_deserializers ::
  "pylib \<Rightarrow> string \<rightharpoonup> (json \<Rightarrow> bool \<Rightarrow> error + pyval)" where
  "scalar_deserializers L =
     map_of [(''bigint'', deserialize_bigint L),
             (''bytes'', deserialize_bytes L),
             (''decimal'', deserialize_decimal L),
             (''datetime'', deserialize_datetime L),
             (''date'', deserialize_date L),
             (''time'', deserialize_time L),
             (''json'', deserialize_json L)]"

text \<open>
  \<open>_deserialize_array\<close>: \<open>array_loop\<close> is its \<open>for\<close> loop, with the list \<open>arr\<close> built so
  far. Inside the loop the type is read before the value.
\<close>

function deserialize_array :: "pylib \<Rightarrow> json \<Rightarrow> bool \<Rightarrow> error + pyval"
  and array_loop :: "pylib \<Rightarrow> bool \<Rightarrow> json list \<Rightarrow> pyval list \<Rightarrow> error + pyval list"
where
  "deserialize_array L value for_model =
     (case iterate value of
        Inl e \<Rightarrow> Inl e
      | Inr entries \<Rightarrow>
          (case array_loop L for_model entries [] of
             Inl e \<Rightarrow> Inl e
           | Inr arr \<Rightarrow> Inr (PList arr)))"
| "array_loop L for_model [] arr = Inr arr"
| "array_loop L for_model (entry # rest) arr =
     (case getitem entry ''prisma__type'' of
        Inl e \<Rightarrow> Inl e
      | Inr prisma_type \<Rightarrow>
     (case getitem entry ''prisma__value'' of
        Inl e \<Rightarrow> Inl e
      | Inr prisma_value \<Rightarrow>
     (case (case lookup (scalar_deserializers L) prisma_type of
              Inl e \<Rightarrow> Inl e
            | Inr (Some f) \<Rightarrow> f prisma_value for_model
            | Inr None \<Rightarrow>
                if prisma_type = JStr ''array''
                then deserialize_array L prisma_value for_model
                else Inr (Raw prisma_value)) of
        Inl e \<Rightarrow> Inl e
      | Inr v \<Rightarrow> array_loop L for_model rest (arr @ [v]))))"
  by pat_completeness auto
termination
proof (relation "measures
    [\<lambda>x. case x of Inl (L, v, fm) \<Rightarrow> size v | Inr (L, fm, es, arr) \<Rightarrow> max_size es,
     \<lambda>x. case x of Inl _ \<Rightarrow> 1 | Inr _ \<Rightarrow> 0,
     \<lambda>x. case x of Inl _ \<Rightarrow> 0 | Inr (L, fm, es, arr) \<Rightarrow> length es]", goal_cases)
  case 1 show ?case by simp
next
  case (2 L v fm es) then show ?case using iterate_size[of v es] by auto
next
  case (3 L fm entry rest arr pt pv) then show ?case using getitem_size[of entry "''prisma__value''" pv] by auto
next
  case 4 then show ?case by auto
qed



definition DESERIALIZERS :: "pylib \<Rightarrow> string \<rightharpoonup> (json \<Rightarrow> bool \<Rightarrow> error + pyval)" where
  "DESERIALIZERS L =
     map_of [(''bigint'', deserialize_bigint L),
             (''bytes'', deserialize_bytes L),
             (''decimal'', deserialize_decimal L),
             (''datetime'', deserialize_datetime L),
             (''date'', deserialize_date L),
             (''time'', deserialize_time L),
             (''array'', deserialize_array L),
             (''json'', deserialize_json L)]"

text \<open>
  \<open>_deserializers[prisma_type](value, for_model) if prisma_type in _deserializers else value\<close>
\<close>

definition convert :: "pylib \<Rightarrow> json \<Rightarrow> json \<Rightarrow> bool \<Rightarrow> error + pyval" where
  "convert L prisma_type value for_model =
     (case lookup (DESERIALIZERS L) prisma_type of
        Inl e \<Rightarrow> Inl e
      | Inr (Some f) \<Rightarrow> f value for_model
      | Inr None \<Rightarrow> Inr (Raw value))"

text \<open>
  The loop of \<open>_deserialize_prisma_object\<close> over \<open>raw_obj.items()\<close>, with the dictionary
  \<open>new_obj\<close> built so far. Here the value is read before the type.
\<close>

fun deserialize_items :: "pylib \<Rightarrow> bool \<Rightarrow> row \<Rightarrow> pydict \<Rightarrow> error + pydict" where
  "deserialize_items L for_model [] new_obj = Inr new_obj"
| "deserialize_items L for_model ((key, raw_value) # items) new_obj =
     (case getitem raw_value ''prisma__value'' of
        Inl e \<Rightarrow> Inl e
      | Inr value \<Rightarrow>
     (case getitem raw_value ''prisma__type'' of
        Inl e \<Rightarrow> Inl e
      | Inr prisma_type \<Rightarrow>
     (case convert L prisma_type value for_model of
        Inl e \<Rightarrow> Inl e
      | Inr v \<Rightarrow> deserialize_items L for_model items (setitem new_obj key v))))"

text \<open>
  A deserialized row is a dictionary, or the instance that \<open>model.parse_obj\<close> makes of it.
  The model class is a parameter: \<open>None\<close>, or its \<open>parse_obj\<close>, which may raise.
\<close>

datatype 'm result = Mapping pydict | Model 'm

definition deserialize_prisma_object ::
  "pylib \<Rightarrow> row \<Rightarrow> bool \<Rightarrow> (pydict \<Rightarrow> error + 'm) option \<Rightarrow> error + 'm result" where
  "deserialize_prisma_object L raw_obj for_model model =
     (case deserialize_items L for_model raw_obj [] of
        Inl e \<Rightarrow> Inl e
      | Inr new_obj \<Rightarrow>
          (case model of
             Some parse_obj \<Rightarrow>
               (case parse_obj new_obj of Inl e \<Rightarrow> Inl e | Inr m \<Rightarrow> Inr (Model m))
           | None \<Rightarrow> Inr (Mapping new_obj)))"

definition deserialize_raw_results ::
  "pylib \<Rightarrow> row list \<Rightarrow> (pydict \<Rightarrow> error + 'm) option \<Rightarrow> error + 'm result list" where
  "deserialize_raw_results L raw_list model =
     (case model of
        Some parse_obj \<Rightarrow>
          traverse (\<lambda>obj. deserialize_prisma_object L obj True (Some parse_obj)) raw_list
      | None \<Rightarrow> traverse (\<lambda>obj. deserialize_prisma_object L obj False None) raw_list)"

subsection \<open>The raw-parse path\<close>

text \<open>
  \<open>_parse_value\<close>; \<open>parse_entries\<close> is its list comprehension
  \<open>[_parse_value(entry) for entry in value]\<close>.
\<close>

function parse_value :: "json \<Rightarrow> error + pyval"
  and parse_entries :: "json list \<Rightarrow> error + pyval list"
where
  "parse_value raw_obj =
     (case getitem raw_obj ''prisma__value'' of
        Inl e \<Rightarrow> Inl e
      | Inr value \<Rightarrow>
     (case getitem raw_obj ''prisma__type'' of
        Inl e \<Rightarrow> Inl e
      | Inr prisma_type \<Rightarrow>
          if prisma_type = JStr ''array''
          then (case iterate value of
                  Inl e \<Rightarrow> Inl e
                | Inr entries \<Rightarrow>
                    (case parse_entries entries of Inl e \<Rightarrow> Inl e | Inr vs \<Rightarrow> Inr (PList vs)))
          else Inr (Raw value)))"
| "parse_entries [] = Inr []"
| "parse_entries (entry # rest) =
     (case parse_value entry of
        Inl e \<Rightarrow> Inl e
      | Inr v \<Rightarrow> (case parse_entries rest of Inl e \<Rightarrow> Inl e | Inr vs \<Rightarrow> Inr (v # vs)))"
  by pat_completeness auto
termination
proof (relation "measures
    [\<lambda>x. case x of Inl obj \<Rightarrow> size obj | Inr es \<Rightarrow> max_size es,
     \<lambda>x. case x of Inl _ \<Rightarrow> 0 | Inr _ \<Rightarrow> 1,
     \<lambda>x. case x of Inl _ \<Rightarrow> 0 | Inr es \<Rightarrow> length es]", goal_cases)
  case 1 show ?case by simp
next
  case (2 obj v pt es) then show ?case
    using iterate_size[of v es] getitem_size[of obj "''prisma__value''" v] by auto
next
  case 3 then show ?case by auto
next
  case 4 then show ?case by auto
qed

text \<open>The dictionary comprehension of \<open>_parse_prisma_obj\<close>, with the dictionary built so far.\<close>

fun parse_items :: "row \<Rightarrow> pydict \<Rightarrow> error + pydict" where
  "parse_items [] new_obj = Inr new_obj"
| "parse_items ((key, value) # items) new_obj =
     (case parse_value value of
        Inl e \<Rightarrow> Inl e
      | Inr v \<Rightarrow> parse_items items (setitem new_obj key v))"

definition parse_prisma_obj :: "row \<Rightarrow> error + pydict" where
  "parse_prisma_obj raw_obj = parse_items raw_obj []"

definition parse_raw_results ::
  "row list \<Rightarrow> (pydict \<Rightarrow> error + 'm) option \<Rightarrow> error + 'm result list" where
  "parse_raw_results raw_list model =
     (case model of
        Some parse_obj \<Rightarrow>
          traverse (\<lambda>entry. case parse_prisma_obj entry of
                             Inl e \<Rightarrow> Inl e
                           | Inr d \<Rightarrow> (case parse_obj d of Inl e \<Rightarrow> Inl e | Inr m \<Rightarrow> Inr (Model m)))
                   raw_list
      | None \<Rightarrow>
          traverse (\<lambda>entry. case parse_prisma_obj entry of
                             Inl e \<Rightarrow> Inl e
                           | Inr d \<Rightarrow> Inr (Mapping d))
                   raw_list)"

subsection \<open>Field names of a result\<close>






subsection \<open>Malformed leaves\<close>

text \<open>
  A leaf lacks a sub-field when it is a dictionary without the key \<open>prisma__value\<close> or
  without the key \<open>prisma__type\<close>, or is no dictionary at all. A leaf is malformed when it
  lacks a sub-field, or when it is an array one of whose entries is malformed.
\<close>

definition lacks_subfield :: "json \<Rightarrow> bool" where
  "lacks_subfield leaf =
     (case leaf of
        JObj d \<Rightarrow> map_of d ''prisma__value'' = None \<or> map_of d ''prisma__type'' = None
      | _ \<Rightarrow> True)"

inductive malformed :: "json \<Rightarrow> bool" where
  here: "lacks_subfield leaf \<Longrightarrow> malformed leaf"
| nested: "getitem leaf ''prisma__type'' = Inr (JStr ''array'') \<Longrightarrow>
           getitem leaf ''prisma__value'' = Inr (JArr entries) \<Longrightarrow>
           entry \<in> set entries \<Longrightarrow> malformed entry \<Longrightarrow> malformed leaf"

code_pred malformed .

text \<open>
  The exception of the two sub-field lookups on a leaf that lacks a sub-field, when the
  key \<open>k1\<close> is looked up first and \<open>k2\<close> second: the \<open>KeyError\<close> of the first missing key,
  or \<open>TypeError\<close> when the leaf is no dictionary.
\<close>

definition lookup_error :: "string \<Rightarrow> string \<Rightarrow> json \<Rightarrow> error" where
  "lookup_error k1 k2 leaf =
     (case leaf of
        JObj d \<Rightarrow> if map_of d k1 = None then KeyError k1 else KeyError k2
      | _ \<Rightarrow> TypeError)"


subsection \<open>A library instance for examples\<close>

text \<open>
  An instance of the library parameters, for running the model on concrete inputs. It
  gives Python's answers on the arguments that the examples of this theory use and a
  fixed answer elsewhere; no general theorem depends on it.
\<close>

definition example_lib :: pylib where
  "example_lib =
     \<lparr>py_int = (\<lambda>v. case v of
                     JInt n \<Rightarrow> Inr n
                   | JStr s \<Rightarrow> if s \<noteq> [] \<and> list_all is_digit s then Inr (int (digits_val s))
                              else Inl ValueError
                   | _ \<Rightarrow> Inl TypeError),
      fromisoformat = (\<lambda>v.
         if v = JStr ''2023-01-01T00:00:00+02:00''
         then Inr \<lparr>year = 2023, month = 1, day = 1, hour = 0, minute = 0, second = 0,
                   microsecond = 0, tzinfo = Some 7200000000, dfold = 0\<rparr>
         else if v = JStr ''2023-01-01T00:00:00''
         then Inr \<lparr>year = 2023, month = 1, day = 1, hour = 0, minute = 0, second = 0,
                   microsecond = 0, tzinfo = None, dfold = 0\<rparr>
         else Inl ValueError),
      fromb64 = (\<lambda>v. Inl ValueError),
      dumps = (\<lambda>v. if v = JObj [(''a'', JInt 1)] then ''{\"a\": 1}'' else ''null''),
      Decimal_other = (\<lambda>v. Inl TypeError),
      py_format = (\<lambda>v. ''None'')\<rparr>"

section \<open>Properties of the binary cache manager\<close>

lemma find_missing_filter:
  "find_missing X w bs acc = acc @ filter (\<lambda>b. \<not> path_exists X b w) bs"
  by (induction bs arbitrary: acc) auto

text \<open>
  C5. \<open>uses_custom_binaries\<close> is true exactly when the environment variable of each of
  the four entries of \<open>ENGINES\<close> holds a non-empty string, and the variable of the CLI
  binary, \<open>PRISMA_CLI_BINARY\<close>, is not consulted: changing it in any way leaves the
  answer as it was.
\<close>

theorem uses_custom_binaries_iff_engines:
  "(uses_custom_binaries e \<longleftrightarrow> (\<forall>b \<in> set ENGINES. \<exists>s. e (env b) = Some s \<and> s \<noteq> []))
   \<and> uses_custom_binaries (e(''PRISMA_CLI_BINARY'' := v)) = uses_custom_binaries e"
  by (auto simp: uses_custom_binaries_def ENGINES_def truthy_def split: option.splits)

theorem uses_custom_binaries_iff_engines_witness:
  "uses_custom_binaries
     (map_of [(''PRISMA_QUERY_ENGINE_BINARY'', ''/opt/q''),
              (''PRISMA_MIGRATION_ENGINE_BINARY'', ''/opt/m''),
              (''PRISMA_INTROSPECTION_ENGINE_BINARY'', ''/opt/i''),
              (''PRISMA_FMT_BINARY'', ''/opt/f'')])
   \<and> \<not> uses_custom_binaries
     (map_of [(''PRISMA_QUERY_ENGINE_BINARY'', ''/opt/q''),
              (''PRISMA_MIGRATION_ENGINE_BINARY'', ''/opt/m''),
              (''PRISMA_INTROSPECTION_ENGINE_BINARY'', ''/opt/i''),
              (''PRISMA_FMT_BINARY'', []),
              (''PRISMA_CLI_BINARY'', ''/opt/cli'')])"
  using uses_custom_binaries_iff_engines
          [of "map_of [(''PRISMA_QUERY_ENGINE_BINARY'', ''/opt/q''),
              (''PRISMA_MIGRATION_ENGINE_BINARY'', ''/opt/m''),
              (''PRISMA_INTROSPECTION_ENGINE_BINARY'', ''/opt/i''),
              (''PRISMA_FMT_BINARY'', ''/opt/f'')]" None]
        uses_custom_binaries_iff_engines
          [of "map_of [(''PRISMA_QUERY_ENGINE_BINARY'', ''/opt/q''),
              (''PRISMA_MIGRATION_ENGINE_BINARY'', ''/opt/m''),
              (''PRISMA_INTROSPECTION_ENGINE_BINARY'', ''/opt/i''),
              (''PRISMA_FMT_BINARY'', []),
              (''PRISMA_CLI_BINARY'', ''/opt/cli'')]" None]
  by (simp add: ENGINES_def)

lemma download_each_calls:
  "download_each X bs called w = (c, r, w') \<Longrightarrow>
   \<exists>k \<le> length bs. c = called @ take k bs \<and> (r = None \<longrightarrow> k = length bs)
                      \<and> (bs \<noteq> [] \<longrightarrow> 0 < k)"
proof (induction bs arbitrary: called w)
  case Nil
  then show ?case by simp
next
  case (Cons b bs)
  show ?case
  proof (cases "download X b w")
    case (Pair e w1)
    show ?thesis
    proof (cases e)
      case None
      with Pair Cons.prems have "download_each X bs (called @ [b]) w1 = (c, r, w')" by simp
      from Cons.IH[OF this] obtain k where
        k: "k \<le> length bs" "c = (called @ [b]) @ take k bs" "r = None \<longrightarrow> k = length bs"
        by blast
      then have "Suc k \<le> length (b # bs) \<and> c = called @ take (Suc k) (b # bs)
                 \<and> (r = None \<longrightarrow> Suc k = length (b # bs)) \<and> (b # bs \<noteq> [] \<longrightarrow> 0 < Suc k)"
        by simp
      then show ?thesis by blast
    next
      case (Some err)
      with Pair Cons.prems have "c = called @ take 1 (b # bs)" "r \<noteq> None" by auto
      then have "(1::nat) \<le> length (b # bs) \<and> c = called @ take 1 (b # bs)
                 \<and> (r = None \<longrightarrow> 1 = length (b # bs)) \<and> (b # bs \<noteq> [] \<longrightarrow> 0 < (1::nat))"
        by auto
      then show ?thesis by blast
    qed
  qed
qed

lemma world_after_Nil [simp]: "world_after X [] w = w"
  by (simp add: world_after_def)

lemma world_after_Cons [simp]:
  "world_after X (b # bs) w = world_after X bs (snd (download X b w))"
  by (simp add: world_after_def)

lemma download_each_all_ok:
  "(\<And>i. i < length bs \<Longrightarrow> fst (download X (bs ! i) (world_after X (take i bs) w)) = None) \<Longrightarrow>
   download_each X bs called w = (called @ bs, None, world_after X bs w)"
proof (induction bs arbitrary: called w)
  case Nil
  then show ?case by simp
next
  case (Cons b bs)
  from Cons.prems[of 0] have b: "fst (download X b w) = None" by simp
  then obtain w1 where d: "download X b w = (None, w1)" by (cases "download X b w") auto
  have "fst (download X (bs ! i) (world_after X (take i bs) w1)) = None" if "i < length bs" for i
    using Cons.prems[of "Suc i"] that d by simp
  from Cons.IH[OF this, of "called @ [b]"] d show ?case by simp
qed

lemma download_each_first_failure:
  "i < length bs \<Longrightarrow>
   fst (download X (bs ! i) (world_after X (take i bs) w)) = Some e \<Longrightarrow>
   (\<And>j. j < i \<Longrightarrow> fst (download X (bs ! j) (world_after X (take j bs) w)) = None) \<Longrightarrow>
   download_each X bs called w =
     (called @ take (Suc i) bs, Some e, world_after X (take (Suc i) bs) w)"
proof (induction bs arbitrary: i called w)
  case Nil
  then show ?case by simp
next
  case (Cons b bs)
  show ?case
  proof (cases i)
    case 0
    with Cons.prems(2) have "fst (download X b w) = Some e" by simp
    then obtain w1 where "download X b w = (Some e, w1)" by (cases "download X b w") auto
    with 0 show ?thesis by simp
  next
    case (Suc k)
    from Cons.prems(3)[of 0] Suc have "fst (download X b w) = None" by simp
    then obtain w1 where d: "download X b w = (None, w1)" by (cases "download X b w") auto
    have k: "k < length bs" using Cons.prems(1) Suc by simp
    have fail: "fst (download X (bs ! k) (world_after X (take k bs) w1)) = Some e"
      using Cons.prems(2) Suc d by simp
    have ok: "fst (download X (bs ! j) (world_after X (take j bs) w1)) = None" if "j < k" for j
      using Cons.prems(3)[of "Suc j"] that Suc d by simp
    from Cons.IH[OF k fail ok, of "called @ [b]"] d Suc show ?thesis by simp
  qed
qed

text \<open>
  C4, as the code has it. If each of the four engine variables holds a non-empty value, or
  no binary is missing, \<open>ensure_cached\<close> calls \<open>download\<close> on nothing, leaves the outside
  world as it was and returns the cache directory. Otherwise it calls \<open>download\<close> on the
  missing binaries in the order of \<open>BINARIES\<close>, each in the world the previous one left:
  if none raises, it has called \<open>download\<close> on exactly the missing binaries and returns
  the cache directory; if the \<open>i\<close>-th is the first to raise, it has called \<open>download\<close> on the
  missing binaries up to and including that one and on no other, and raises its
  exception. So whenever it returns, it returns the cache directory after downloads
  of exactly the missing binaries.
\<close>

theorem ensure_cached_frame:
  "(uses_custom_binaries (environ X w) \<or> (\<forall>b \<in> set (BINARIES X). path_exists X b w) \<longrightarrow>
      ensure_cached X w = \<lparr>downloads = [], returned = Inr (binary_cache_dir X), world = w\<rparr>)
   \<and> (\<not> uses_custom_binaries (environ X w) \<and> \<not> (\<forall>b \<in> set (BINARIES X). path_exists X b w) \<longrightarrow>
      ((\<forall>i < length (filter (\<lambda>b. \<not> path_exists X b w) (BINARIES X)).
           fst (download X (filter (\<lambda>b. \<not> path_exists X b w) (BINARIES X) ! i)
                  (world_after X (take i (filter (\<lambda>b. \<not> path_exists X b w) (BINARIES X))) w)) = None) \<longrightarrow>
         ensure_cached X w =
           \<lparr>downloads = filter (\<lambda>b. \<not> path_exists X b w) (BINARIES X),
            returned = Inr (binary_cache_dir X),
            world = world_after X (filter (\<lambda>b. \<not> path_exists X b w) (BINARIES X)) w\<rparr>)
      \<and> (\<forall>i < length (filter (\<lambda>b. \<not> path_exists X b w) (BINARIES X)). \<forall>e.
           fst (download X (filter (\<lambda>b. \<not> path_exists X b w) (BINARIES X) ! i)
                  (world_after X (take i (filter (\<lambda>b. \<not> path_exists X b w) (BINARIES X))) w)) = Some e
           \<and> (\<forall>j < i.
                fst (download X (filter (\<lambda>b. \<not> path_exists X b w) (BINARIES X) ! j)
                       (world_after X (take j (filter (\<lambda>b. \<not> path_exists X b w) (BINARIES X))) w)) = None) \<longrightarrow>
         ensure_cached X w =
           \<lparr>downloads = take (Suc i) (filter (\<lambda>b. \<not> path_exists X b w) (BINARIES X)),
            returned = Inl e,
            world = world_after X (take (Suc i) (filter (\<lambda>b. \<not> path_exists X b w) (BINARIES X))) w\<rparr>)
      \<and> (\<forall>d. returned (ensure_cached X w) = Inr d \<longrightarrow>
             d = binary_cache_dir X
             \<and> downloads (ensure_cached X w) = filter (\<lambda>b. \<not> path_exists X b w) (BINARIES X)))"
proof -
  define missing where "missing = filter (\<lambda>b. \<not> path_exists X b w) (BINARIES X)"
  have fm: "find_missing X w (BINARIES X) [] = missing"
    by (simp add: find_missing_filter missing_def)
  have empty: "missing = [] \<longleftrightarrow> (\<forall>b \<in> set (BINARIES X). path_exists X b w)"
    by (auto simp: missing_def filter_empty_conv)
  have early: "ensure_cached X w = \<lparr>downloads = [], returned = Inr (binary_cache_dir X), world = w\<rparr>"
    if "uses_custom_binaries (environ X w) \<or> (\<forall>b \<in> set (BINARIES X). path_exists X b w)"
    using that empty by (auto simp: ensure_cached_def fm)
  have run: "ensure_cached X w =
        (case download_each X missing [] w of
           (called, Some e, w') \<Rightarrow> \<lparr>downloads = called, returned = Inl e, world = w'\<rparr>
         | (called, None, w') \<Rightarrow>
             \<lparr>downloads = called, returned = Inr (binary_cache_dir X), world = w'\<rparr>)"
    if "\<not> uses_custom_binaries (environ X w)" "\<not> (\<forall>b \<in> set (BINARIES X). path_exists X b w)"
  proof -
    from that(2) empty have "missing \<noteq> []" by blast
    with that(1) show ?thesis by (simp add: ensure_cached_def fm)
  qed
  have all_ok: "ensure_cached X w =
           \<lparr>downloads = missing, returned = Inr (binary_cache_dir X), world = world_after X missing w\<rparr>"
    if no: "\<not> uses_custom_binaries (environ X w)" "\<not> (\<forall>b \<in> set (BINARIES X). path_exists X b w)"
      and ok: "\<forall>i < length missing.
                 fst (download X (missing ! i) (world_after X (take i missing) w)) = None"
  proof -
    have "download_each X missing [] w = ([] @ missing, None, world_after X missing w)"
      by (rule download_each_all_ok) (use ok in blast)
    then show ?thesis by (simp add: run[OF no])
  qed
  have first: "ensure_cached X w =
           \<lparr>downloads = take (Suc i) missing, returned = Inl e,
            world = world_after X (take (Suc i) missing) w\<rparr>"
    if no: "\<not> uses_custom_binaries (environ X w)" "\<not> (\<forall>b \<in> set (BINARIES X). path_exists X b w)"
      and i: "i < length missing"
      and fail: "fst (download X (missing ! i) (world_after X (take i missing) w)) = Some e"
      and ok: "\<forall>j < i. fst (download X (missing ! j) (world_after X (take j missing) w)) = None"
    for i e
  proof -
    have "download_each X missing [] w =
            ([] @ take (Suc i) missing, Some e, world_after X (take (Suc i) missing) w)"
      by (rule download_each_first_failure[OF i fail]) (use ok in blast)
    then show ?thesis by (simp add: run[OF no])
  qed
  have ret: "d = binary_cache_dir X \<and> downloads (ensure_cached X w) = missing"
    if no: "\<not> uses_custom_binaries (environ X w)" "\<not> (\<forall>b \<in> set (BINARIES X). path_exists X b w)"
      and r: "returned (ensure_cached X w) = Inr d"
    for d
  proof -
    obtain c r' w' where de: "download_each X missing [] w = (c, r', w')"
      by (cases "download_each X missing [] w")
    from r have rn: "r' = None" and d: "d = binary_cache_dir X"
      by (auto simp: run[OF no] de split: option.splits)
    from download_each_calls[OF de] rn have "c = missing" by auto
    with d rn show ?thesis by (simp add: run[OF no] de)
  qed
  from early all_ok first ret show ?thesis unfolding missing_def by blast
qed


theorem ensure_cached_frame_witness:
  "ensure_cached (mem_externals [])
      \<lparr>vars = [(''PRISMA_QUERY_ENGINE_BINARY'', ''/opt/q''),
                (''PRISMA_MIGRATION_ENGINE_BINARY'', ''/opt/m''),
                (''PRISMA_INTROSPECTION_ENGINE_BINARY'', ''/opt/i''),
                (''PRISMA_FMT_BINARY'', ''/opt/f'')],
        cached = []\<rparr>
     = \<lparr>downloads = [], returned = Inr ''/cache'',
        world = \<lparr>vars = [(''PRISMA_QUERY_ENGINE_BINARY'', ''/opt/q''),
                (''PRISMA_MIGRATION_ENGINE_BINARY'', ''/opt/m''),
                (''PRISMA_INTROSPECTION_ENGINE_BINARY'', ''/opt/i''),
                (''PRISMA_FMT_BINARY'', ''/opt/f'')],
        cached = []\<rparr>\<rparr>
   \<and> ensure_cached (mem_externals [])
        \<lparr>vars = [], cached = [''migration-engine'', ''prisma-fmt'']\<rparr>
     = \<lparr>downloads = [\<lparr>name = ''query-engine'', env = ''PRISMA_QUERY_ENGINE_BINARY''\<rparr>,
          \<lparr>name = ''introspection-engine'', env = ''PRISMA_INTROSPECTION_ENGINE_BINARY''\<rparr>,
          \<lparr>name = ''prisma-cli'', env = ''PRISMA_CLI_BINARY''\<rparr>],
        returned = Inr ''/cache'',
        world = \<lparr>vars = [],
                 cached = [''migration-engine'', ''prisma-fmt'', ''query-engine'',
                           ''introspection-engine'', ''prisma-cli'']\<rparr>\<rparr>
   \<and> ensure_cached (mem_externals [''introspection-engine''])
        \<lparr>vars = [], cached = [''migration-engine'', ''prisma-fmt'']\<rparr>
     = \<lparr>downloads = [\<lparr>name = ''query-engine'', env = ''PRISMA_QUERY_ENGINE_BINARY''\<rparr>,
          \<lparr>name = ''introspection-engine'', env = ''PRISMA_INTROSPECTION_ENGINE_BINARY''\<rparr>],
        returned = Inl DownloadError,
        world = \<lparr>vars = [], cached = [''migration-engine'', ''prisma-fmt'', ''query-engine'']\<rparr>\<rparr>"
proof -
  let ?w1 = "\<lparr>vars = [(''PRISMA_QUERY_ENGINE_BINARY'', ''/opt/q''),
                (''PRISMA_MIGRATION_ENGINE_BINARY'', ''/opt/m''),
                (''PRISMA_INTROSPECTION_ENGINE_BINARY'', ''/opt/i''),
                (''PRISMA_FMT_BINARY'', ''/opt/f'')],
        cached = []\<rparr>"
  let ?w2 = "\<lparr>vars = [], cached = [''migration-engine'', ''prisma-fmt'']\<rparr>"
  let ?q = "\<lparr>name = ''query-engine'', env = ''PRISMA_QUERY_ENGINE_BINARY''\<rparr>"
  let ?i = "\<lparr>name = ''introspection-engine'', env = ''PRISMA_INTROSPECTION_ENGINE_BINARY''\<rparr>"
  let ?c = "\<lparr>name = ''prisma-cli'', env = ''PRISMA_CLI_BINARY''\<rparr>"
  let ?X = "mem_externals []"
  let ?Y = "mem_externals [''introspection-engine'']"
  have u1: "uses_custom_binaries (environ ?X ?w1)"
    by (simp add: uses_custom_binaries_def truthy_def mem_externals_def)
  have u2: "\<not> uses_custom_binaries (environ U ?w2)" if "U = ?X \<or> U = ?Y" for U
    using that by (auto simp: uses_custom_binaries_def truthy_def mem_externals_def)
  have m2: "\<not> (\<forall>b \<in> set (BINARIES U). path_exists U b ?w2)" if "U = ?X \<or> U = ?Y" for U
    using that by (auto simp: BINARIES_def ENGINES_def mem_externals_def)
  have f2: "filter (\<lambda>b. \<not> path_exists U b ?w2) (BINARIES U) = [?q, ?i, ?c]"
    if "U = ?X \<or> U = ?Y" for U
    using that by (auto simp: BINARIES_def ENGINES_def mem_externals_def)
  have cX: "binary_cache_dir ?X = ''/cache''" by (simp add: mem_externals_def)
  from ensure_cached_frame[of ?X ?w1, THEN conjunct1] u1
  have r1: "ensure_cached ?X ?w1 = \<lparr>downloads = [], returned = Inr ''/cache'', world = ?w1\<rparr>"
    unfolding cX by blast
  have ok: "\<forall>i < length [?q, ?i, ?c].
              fst (download ?X ([?q, ?i, ?c] ! i) (world_after ?X (take i [?q, ?i, ?c]) ?w2)) = None"
    by (simp add: mem_externals_def mem_download_def)
  have wa2: "world_after ?X [?q, ?i, ?c] ?w2
             = \<lparr>vars = [], cached = [''migration-engine'', ''prisma-fmt'', ''query-engine'',
                                      ''introspection-engine'', ''prisma-cli'']\<rparr>"
    by (simp add: mem_externals_def mem_download_def)
  from ensure_cached_frame[of ?X ?w2, THEN conjunct2, THEN mp, OF conjI[OF u2 m2], THEN conjunct1]
  have r2: "ensure_cached ?X ?w2 =
      \<lparr>downloads = [?q, ?i, ?c], returned = Inr ''/cache'',
       world = \<lparr>vars = [], cached = [''migration-engine'', ''prisma-fmt'', ''query-engine'',
                                     ''introspection-engine'', ''prisma-cli'']\<rparr>\<rparr>"
    unfolding f2[of ?X, simplified] cX using ok wa2 by simp
  have fail: "fst (download ?Y ([?q, ?i, ?c] ! 1) (world_after ?Y (take 1 [?q, ?i, ?c]) ?w2))
              = Some DownloadError
            \<and> (\<forall>j < (1::nat).
                 fst (download ?Y ([?q, ?i, ?c] ! j) (world_after ?Y (take j [?q, ?i, ?c]) ?w2)) = None)"
    by (simp add: mem_externals_def mem_download_def)
  have wa3: "world_after ?Y (take (Suc 1) [?q, ?i, ?c]) ?w2
             = \<lparr>vars = [], cached = [''migration-engine'', ''prisma-fmt'', ''query-engine'']\<rparr>"
    by (simp add: mem_externals_def mem_download_def)
  from ensure_cached_frame[of ?Y ?w2, THEN conjunct2, THEN mp, OF conjI[OF u2 m2], THEN conjunct2, THEN conjunct1]
  have "\<forall>i < length [?q, ?i, ?c]. \<forall>e.
           fst (download ?Y ([?q, ?i, ?c] ! i) (world_after ?Y (take i [?q, ?i, ?c]) ?w2)) = Some e
           \<and> (\<forall>j < i. fst (download ?Y ([?q, ?i, ?c] ! j)
                              (world_after ?Y (take j [?q, ?i, ?c]) ?w2)) = None) \<longrightarrow>
         ensure_cached ?Y ?w2 =
           \<lparr>downloads = take (Suc i) [?q, ?i, ?c], returned = Inl e,
            world = world_after ?Y (take (Suc i) [?q, ?i, ?c]) ?w2\<rparr>"
    unfolding f2[of ?Y, simplified] by simp
  then have "ensure_cached ?Y ?w2 =
           \<lparr>downloads = take (Suc 1) [?q, ?i, ?c], returned = Inl DownloadError,
            world = world_after ?Y (take (Suc 1) [?q, ?i, ?c]) ?w2\<rparr>"
    using fail by (metis One_nat_def length_Cons less_Suc_eq list.size(3))
  then have r3: "ensure_cached ?Y ?w2 =
      \<lparr>downloads = [?q, ?i], returned = Inl DownloadError,
       world = \<lparr>vars = [], cached = [''migration-engine'', ''prisma-fmt'', ''query-engine'']\<rparr>\<rparr>"
    unfolding wa3 by simp
  from r1 r2 r3 show ?thesis by blast
qed

text \<open>
  C4, as stated, fails when a download raises: here the query engine and the CLI are
  missing and the transfer of the query engine fails; \<open>ensure_cached\<close> calls \<open>download\<close> on
  the query engine only and raises, so the CLI is never attempted and no directory is
  returned.
\<close>

theorem ensure_cached_download_raises_counterexample:
  "find_missing (mem_externals [''query-engine''])
      \<lparr>vars = [], cached = [''migration-engine'', ''introspection-engine'', ''prisma-fmt'']\<rparr>
      (BINARIES (mem_externals [''query-engine''])) []
     = [\<lparr>name = ''query-engine'', env = ''PRISMA_QUERY_ENGINE_BINARY''\<rparr>,
        \<lparr>name = ''prisma-cli'', env = ''PRISMA_CLI_BINARY''\<rparr>]
   \<and> ensure_cached (mem_externals [''query-engine''])
      \<lparr>vars = [], cached = [''migration-engine'', ''introspection-engine'', ''prisma-fmt'']\<rparr>
     = \<lparr>downloads = [\<lparr>name = ''query-engine'', env = ''PRISMA_QUERY_ENGINE_BINARY''\<rparr>],
        returned = Inl DownloadError,
        world = \<lparr>vars = [], cached = [''migration-engine'', ''introspection-engine'', ''prisma-fmt'']\<rparr>\<rparr>"
  by (simp add: ensure_cached_def BINARIES_def ENGINES_def mem_externals_def mem_download_def
      uses_custom_binaries_def truthy_def)

section \<open>Properties of the deserializers\<close>

subsection \<open>Exceptions\<close>

lemma fails_simps [simp]: "fails (Inl e)" "\<not> fails (Inr x)"
  by (simp_all add: fails_def)

lemma not_fails: "\<not> fails r \<longleftrightarrow> (\<exists>y. r = Inr y)"
  by (cases r) auto

lemma fails_bind:
  "fails (case r of Inl e \<Rightarrow> Inl e | Inr x \<Rightarrow> g x)
   \<longleftrightarrow> fails r \<or> (\<exists>x. r = Inr x \<and> fails (g x))"
  by (cases r) auto

subsection \<open>The dispatch table\<close>

lemma DESERIALIZERS_array: "DESERIALIZERS L = (scalar_deserializers L)(''array'' \<mapsto> deserialize_array L)"
  by (rule ext) (simp add: DESERIALIZERS_def scalar_deserializers_def)

lemma scalar_array: "scalar_deserializers L ''array'' = None"
  by (simp add: scalar_deserializers_def)

lemma convert_scalar:
  "convert L pt pv fm =
     (case lookup (scalar_deserializers L) pt of
        Inl e \<Rightarrow> Inl e
      | Inr (Some f) \<Rightarrow> f pv fm
      | Inr None \<Rightarrow> if pt = JStr ''array'' then deserialize_array L pv fm else Inr (Raw pv))"
  by (cases pt) (auto simp: convert_def lookup_def DESERIALIZERS_array scalar_array split: option.splits)

lemma array_loop_Cons:
  "array_loop L fm (entry # rest) arr =
     (case getitem entry ''prisma__type'' of
        Inl e \<Rightarrow> Inl e
      | Inr pt \<Rightarrow>
     (case getitem entry ''prisma__value'' of
        Inl e \<Rightarrow> Inl e
      | Inr pv \<Rightarrow>
     (case convert L pt pv fm of
        Inl e \<Rightarrow> Inl e
      | Inr v \<Rightarrow> array_loop L fm rest (arr @ [v]))))"
  by (simp add: convert_scalar split: sum.splits)

declare deserialize_array.simps [simp del] array_loop.simps(2) [simp del]

lemma dom_DESERIALIZERS:
  "dom (DESERIALIZERS L) =
     {''bigint'', ''bytes'', ''decimal'', ''datetime'', ''date'', ''time'', ''array'', ''json''}"
  by (auto simp: DESERIALIZERS_def split: if_splits)

lemma convert_unmapped: "t \<notin> dom (DESERIALIZERS L) \<Longrightarrow> convert L (JStr t) v fm = Inr (Raw v)"
  by (simp add: convert_def lookup_def domIff)

text \<open>
  C9. A tag string that is none of the eight keys of \<open>DESERIALIZERS\<close>, whether or not it is
  one of the type names of the engine, is absent from the table, and a leaf that carries
  it contributes its raw value unchanged and does not stop the loop: at row level
  (\<open>deserialize_items\<close>) and inside an array (\<open>array_loop\<close>). A row or an array that
  consists of such a leaf is deserialized to that raw value without an exception.
\<close>

theorem unmapped_tag_passes_through:
  assumes "t \<notin> {''bigint'', ''bytes'', ''decimal'', ''datetime'', ''date'', ''time'', ''array'', ''json''}"
    and "getitem leaf ''prisma__type'' = Inr (JStr t)"
    and "getitem leaf ''prisma__value'' = Inr v"
  shows "DESERIALIZERS L t = None
       \<and> deserialize_items L fm ((key, leaf) # items) new_obj =
           deserialize_items L fm items (setitem new_obj key (Raw v))
       \<and> array_loop L fm (leaf # rest) arr = array_loop L fm rest (arr @ [Raw v])
       \<and> deserialize_prisma_object L [(key, leaf)] fm (None :: (pydict \<Rightarrow> error + 'm) option)
           = Inr (Mapping [(key, Raw v)])
       \<and> deserialize_array L (JArr [leaf]) fm = Inr (PList [Raw v])"
proof -
  from assms(1) have d: "t \<notin> dom (DESERIALIZERS L)"
    unfolding dom_DESERIALIZERS by simp 
  then have c: "convert L (JStr t) v fm = Inr (Raw v)" by (rule convert_unmapped)
  have i: "deserialize_items L fm ((key, leaf) # items) new_obj =
           deserialize_items L fm items (setitem new_obj key (Raw v))" for items new_obj
    using assms(2,3) c by simp
  have a: "array_loop L fm (leaf # rest) arr = array_loop L fm rest (arr @ [Raw v])" for rest arr
    using assms(2,3) c by (simp add: array_loop_Cons)
  have p: "deserialize_prisma_object L [(key, leaf)] fm (None :: (pydict \<Rightarrow> error + 'm) option)
           = Inr (Mapping [(key, Raw v)])"
    unfolding deserialize_prisma_object_def i by simp
  have l: "deserialize_array L (JArr [leaf]) fm = Inr (PList [Raw v])"
    by (simp add: deserialize_array.simps iterate_def a)
  from d i a p l show ?thesis by blast
qed

theorem unmapped_tag_passes_through_witness:
  "deserialize_prisma_object example_lib
      [(''shape'', JObj [(''prisma__type'', JStr ''geometry''), (''prisma__value'', JStr ''POINT(1 2)'')])]
      True (None :: (pydict \<Rightarrow> error + unit) option)
      = Inr (Mapping [(''shape'', Raw (JStr ''POINT(1 2)''))])
   \<and> deserialize_array example_lib
      (JArr [JObj [(''prisma__type'', JStr ''geometry''), (''prisma__value'', JStr ''POINT(1 2)'')]]) True
      = Inr (PList [Raw (JStr ''POINT(1 2)'')])"
  using unmapped_tag_passes_through
    [of "''geometry''"
        "JObj [(''prisma__type'', JStr ''geometry''), (''prisma__value'', JStr ''POINT(1 2)'')]"
        "JStr ''POINT(1 2)''" example_lib True "''shape''" "[]" "[]" "[]" "[]",
     where ?'m = unit]
  by (simp add: getitem_def)

subsection \<open>The raw-parse path\<close>

lemma parse_entries_traverse: "parse_entries es = traverse parse_value es"
  by (induction es) (auto split: sum.splits)

declare parse_value.simps [simp del]

lemma setitem_fresh: "key \<notin> set (map fst d) \<Longrightarrow> setitem d key v = d @ [(key, v)]"
  by (induction d key v rule: setitem.induct) auto

lemma traverse_cong:
  "(\<And>x. x \<in> set xs \<Longrightarrow> f x = g x) \<Longrightarrow> traverse f xs = traverse g xs"
  by (induction xs) (auto split: sum.splits)

lemma parse_items_traverse:
  "distinct (map fst items) \<Longrightarrow> set (map fst items) \<inter> set (map fst acc) = {} \<Longrightarrow>
   parse_items items acc =
     (case traverse (\<lambda>kv. case parse_value (snd kv) of Inl e \<Rightarrow> Inl e | Inr v \<Rightarrow> Inr (fst kv, v)) items of
        Inl e \<Rightarrow> Inl e
      | Inr kvs \<Rightarrow> Inr (acc @ kvs))"
proof (induction items arbitrary: acc)
  case Nil
  then show ?case by simp
next
  case (Cons item items)
  obtain key leaf where item: "item = (key, leaf)" by (cases item)
  from Cons.prems have fresh: "key \<notin> set (map fst acc)" and d: "distinct (map fst items)"
    and nk: "key \<notin> set (map fst items)"
    by (auto simp: item)
  show ?case
  proof (cases "parse_value leaf")
    case (Inl e)
    then show ?thesis by (simp add: item)
  next
    case (Inr v)
    have disj: "set (map fst items) \<inter> set (map fst (acc @ [(key, v)])) = {}"
      using Cons.prems(2) nk by (auto simp: item)
    from Cons.IH[OF d disj] Inr fresh show ?thesis
      by (simp add: item setitem_fresh split: sum.splits)
  qed
qed

text \<open>
  C7. For a tagged value with both sub-fields, \<open>parse_value\<close> returns the raw value as it
  is whenever the tag is anything but the string \<open>array\<close> (so also for \<open>bigint\<close>, which the
  full path would convert); for the tag \<open>array\<close> with a list as value it returns the list
  of the results of \<open>parse_value\<close> on the entries, in order, so nested arrays are unwrapped
  recursively. The raw-parse entry point does exactly this to every field: for rows with
  distinct keys, \<open>parse_prisma_obj\<close> pairs each key with the result of \<open>parse_value\<close> on
  its leaf, in order, and \<open>parse_raw_results\<close> does so for every row, handing the
  dictionary to the model constructor when there is one.
\<close>

theorem parse_value_only_unwraps_arrays:
  "(getitem raw_obj ''prisma__value'' = Inr value \<and> getitem raw_obj ''prisma__type'' = Inr prisma_type \<longrightarrow>
      (prisma_type \<noteq> JStr ''array'' \<longrightarrow> parse_value raw_obj = Inr (Raw value))
      \<and> (prisma_type = JStr ''array'' \<and> value = JArr entries \<longrightarrow>
            parse_value raw_obj =
              (case traverse parse_value entries of
                 Inl e \<Rightarrow> Inl e
               | Inr vs \<Rightarrow> Inr (PList vs))))
   \<and> (distinct (map fst row) \<longrightarrow>
        parse_prisma_obj row =
          traverse (\<lambda>kv. case parse_value (snd kv) of Inl e \<Rightarrow> Inl e | Inr v \<Rightarrow> Inr (fst kv, v)) row)
   \<and> ((\<forall>r \<in> set raw_list. distinct (map fst r)) \<longrightarrow>
        parse_raw_results raw_list (None :: (pydict \<Rightarrow> error + 'm) option) =
          traverse (\<lambda>r. case traverse (\<lambda>kv. case parse_value (snd kv) of
                                                Inl e \<Rightarrow> Inl e
                                              | Inr v \<Rightarrow> Inr (fst kv, v)) r of
                           Inl e \<Rightarrow> Inl e
                         | Inr d \<Rightarrow> Inr (Mapping d))
                   raw_list
        \<and> parse_raw_results raw_list (Some parse_obj) =
          traverse (\<lambda>r. case traverse (\<lambda>kv. case parse_value (snd kv) of
                                                Inl e \<Rightarrow> Inl e
                                              | Inr v \<Rightarrow> Inr (fst kv, v)) r of
                           Inl e \<Rightarrow> Inl e
                         | Inr d \<Rightarrow> (case parse_obj d of
                                      Inl e \<Rightarrow> Inl e
                                    | Inr (m :: 'm) \<Rightarrow> Inr (Model m)))
                   raw_list)"
proof -
  have one: "getitem raw_obj ''prisma__value'' = Inr value \<and> getitem raw_obj ''prisma__type'' = Inr prisma_type \<longrightarrow>
      (prisma_type \<noteq> JStr ''array'' \<longrightarrow> parse_value raw_obj = Inr (Raw value))
      \<and> (prisma_type = JStr ''array'' \<and> value = JArr entries \<longrightarrow>
            parse_value raw_obj =
              (case traverse parse_value entries of
                 Inl e \<Rightarrow> Inl e
               | Inr vs \<Rightarrow> Inr (PList vs)))"
    by (simp add: parse_value.simps[of raw_obj] iterate_def parse_entries_traverse)
  have obj: "parse_prisma_obj r =
          traverse (\<lambda>kv. case parse_value (snd kv) of Inl e \<Rightarrow> Inl e | Inr v \<Rightarrow> Inr (fst kv, v)) r"
    if "distinct (map fst r)" for r
    using parse_items_traverse[OF that, of "[]"]
    by (simp add: parse_prisma_obj_def split: sum.splits)
  have lists: "parse_raw_results raw_list (None :: (pydict \<Rightarrow> error + 'm) option) =
          traverse (\<lambda>r. case traverse (\<lambda>kv. case parse_value (snd kv) of
                                                Inl e \<Rightarrow> Inl e
                                              | Inr v \<Rightarrow> Inr (fst kv, v)) r of
                           Inl e \<Rightarrow> Inl e
                         | Inr d \<Rightarrow> Inr (Mapping d))
                   raw_list
        \<and> parse_raw_results raw_list (Some parse_obj) =
          traverse (\<lambda>r. case traverse (\<lambda>kv. case parse_value (snd kv) of
                                                Inl e \<Rightarrow> Inl e
                                              | Inr v \<Rightarrow> Inr (fst kv, v)) r of
                           Inl e \<Rightarrow> Inl e
                         | Inr d \<Rightarrow> (case parse_obj d of
                                      Inl e \<Rightarrow> Inl e
                                    | Inr (m :: 'm) \<Rightarrow> Inr (Model m)))
                   raw_list"
    if all: "\<forall>r \<in> set raw_list. distinct (map fst r)"
  proof (rule conjI)
    show "parse_raw_results raw_list (None :: (pydict \<Rightarrow> error + 'm) option) =
          traverse (\<lambda>r. case traverse (\<lambda>kv. case parse_value (snd kv) of
                                                Inl e \<Rightarrow> Inl e
                                              | Inr v \<Rightarrow> Inr (fst kv, v)) r of
                           Inl e \<Rightarrow> Inl e
                         | Inr d \<Rightarrow> Inr (Mapping d))
                   raw_list"
      unfolding parse_raw_results_def option.case
      by (rule traverse_cong) (use all obj in simp)
    show "parse_raw_results raw_list (Some parse_obj) =
          traverse (\<lambda>r. case traverse (\<lambda>kv. case parse_value (snd kv) of
                                                Inl e \<Rightarrow> Inl e
                                              | Inr v \<Rightarrow> Inr (fst kv, v)) r of
                           Inl e \<Rightarrow> Inl e
                         | Inr d \<Rightarrow> (case parse_obj d of
                                      Inl e \<Rightarrow> Inl e
                                    | Inr (m :: 'm) \<Rightarrow> Inr (Model m)))
                   raw_list"
      unfolding parse_raw_results_def option.case
      by (rule traverse_cong) (use all obj in simp)
  qed
  from one obj lists show ?thesis by blast
qed

theorem parse_value_only_unwraps_arrays_witness:
  "parse_raw_results
     [[(''id'', JObj [(''prisma__type'', JStr ''bigint''), (''prisma__value'', JStr ''9007199254740993'')]),
       (''tags'', JObj [(''prisma__type'', JStr ''array''),
                        (''prisma__value'',
                         JArr [JObj [(''prisma__type'', JStr ''bigint''), (''prisma__value'', JStr ''1'')],
                               JObj [(''prisma__type'', JStr ''array''),
                                     (''prisma__value'',
                                      JArr [JObj [(''prisma__type'', JStr ''int''), (''prisma__value'', JInt 2)]])]])])]]
     (None :: (pydict \<Rightarrow> error + unit) option)
   = Inr [Mapping [(''id'', Raw (JStr ''9007199254740993'')),
                   (''tags'', PList [Raw (JStr ''1''), PList [Raw (JInt 2)]])]]"
proof -
  let ?i = "JObj [(''prisma__type'', JStr ''int''), (''prisma__value'', JInt 2)]"
  let ?b = "JObj [(''prisma__type'', JStr ''bigint''), (''prisma__value'', JStr ''1'')]"
  let ?inner = "JObj [(''prisma__type'', JStr ''array''), (''prisma__value'', JArr [?i])]"
  let ?outer = "JObj [(''prisma__type'', JStr ''array''), (''prisma__value'', JArr [?b, ?inner])]"
  let ?big = "JObj [(''prisma__type'', JStr ''bigint''), (''prisma__value'', JStr ''9007199254740993'')]"
  let ?row = "[(''id'', ?big), (''tags'', ?outer)]"
  have i: "parse_value ?i = Inr (Raw (JInt 2))"
    using parse_value_only_unwraps_arrays[THEN conjunct1, of ?i "JInt 2" "JStr ''int''"] by (simp add: getitem_def)
  have b: "parse_value ?b = Inr (Raw (JStr ''1''))"
    using parse_value_only_unwraps_arrays[THEN conjunct1, of ?b "JStr ''1''" "JStr ''bigint''"] by (simp add: getitem_def)
  have inner: "parse_value ?inner = Inr (PList [Raw (JInt 2)])"
    using parse_value_only_unwraps_arrays[THEN conjunct1, of ?inner "JArr [?i]" "JStr ''array''" "[?i]"] i
    by (simp add: getitem_def)
  have outer: "parse_value ?outer = Inr (PList [Raw (JStr ''1''), PList [Raw (JInt 2)]])"
    using parse_value_only_unwraps_arrays[THEN conjunct1, of ?outer "JArr [?b, ?inner]" "JStr ''array''" "[?b, ?inner]"] b inner
    by (simp add: getitem_def)
  have big: "parse_value ?big = Inr (Raw (JStr ''9007199254740993''))"
    using parse_value_only_unwraps_arrays[THEN conjunct1, of ?big "JStr ''9007199254740993''" "JStr ''bigint''"]
    by (simp add: getitem_def)
  have d: "\<forall>r \<in> set [?row]. distinct (map fst r)" by simp
  from parse_value_only_unwraps_arrays[where raw_list = "[?row]" and ?'m = unit, THEN conjunct2, THEN conjunct2, THEN mp, OF d,
               THEN conjunct1]
  show ?thesis by (simp add: big outer)
qed

subsection \<open>The converters\<close>



text \<open>
  C6. When \<open>fromisoformat\<close> parses the string to \<open>dt\<close>, the date converter returns \<open>dt\<close> with
  \<open>tzinfo\<close> cleared and every other field unchanged; when \<open>dt\<close> has no \<open>tzinfo\<close> the result is
  \<open>dt\<close> itself, and clearing a second time changes nothing.
\<close>

theorem deserialize_date_clears_tzinfo:
  assumes "fromisoformat L (JStr s) = Inr dt"
  shows "deserialize_date L (JStr s) fm = Inr (PDatetime (replace_tzinfo dt None))
       \<and> tzinfo (replace_tzinfo dt None) = None
       \<and> year (replace_tzinfo dt None) = year dt
       \<and> month (replace_tzinfo dt None) = month dt
       \<and> day (replace_tzinfo dt None) = day dt
       \<and> hour (replace_tzinfo dt None) = hour dt
       \<and> minute (replace_tzinfo dt None) = minute dt
       \<and> second (replace_tzinfo dt None) = second dt
       \<and> microsecond (replace_tzinfo dt None) = microsecond dt
       \<and> dfold (replace_tzinfo dt None) = dfold dt
       \<and> (tzinfo dt = None \<longrightarrow> deserialize_date L (JStr s) fm = Inr (PDatetime dt))
       \<and> replace_tzinfo (replace_tzinfo dt None) None = replace_tzinfo dt None"
  using assms by (simp add: deserialize_date_def replace_tzinfo_def)

theorem deserialize_date_clears_tzinfo_witness:
  "deserialize_date example_lib (JStr ''2023-01-01T00:00:00+02:00'') False
     = Inr (PDatetime \<lparr>year = 2023, month = 1, day = 1, hour = 0, minute = 0, second = 0,
                       microsecond = 0, tzinfo = None, dfold = 0\<rparr>)
   \<and> deserialize_date example_lib (JStr ''2023-01-01T00:00:00'') False
     = Inr (PDatetime \<lparr>year = 2023, month = 1, day = 1, hour = 0, minute = 0, second = 0,
                       microsecond = 0, tzinfo = None, dfold = 0\<rparr>)"
  using deserialize_date_clears_tzinfo
      [of example_lib "''2023-01-01T00:00:00+02:00''"
          "\<lparr>year = 2023, month = 1, day = 1, hour = 0, minute = 0, second = 0,
            microsecond = 0, tzinfo = Some 7200000000, dfold = 0\<rparr>" False]
        deserialize_date_clears_tzinfo
      [of example_lib "''2023-01-01T00:00:00''"
          "\<lparr>year = 2023, month = 1, day = 1, hour = 0, minute = 0, second = 0,
            microsecond = 0, tzinfo = None, dfold = 0\<rparr>" False]
  by (simp add: example_lib_def replace_tzinfo_def)

text \<open>
  C1. The string that the time converter hands to \<open>fromisoformat\<close> is the epoch date, a
  dollar sign, the value and \<open>Z\<close>: for every value it differs from the epoch date
  followed by the value and \<open>Z\<close>. For the value \<open>12:30:00\<close> it is \<open>1970-01-01T$12:30:00Z\<close>.
\<close>

theorem deserialize_time_parses_dollar_literal:
  "deserialize_time L (JStr v) fm =
     (case fromisoformat L (JStr (''1970-01-01T$'' @ v @ ''Z'')) of
        Inl e \<Rightarrow> Inl e
      | Inr dt \<Rightarrow> Inr (PDatetime dt))
   \<and> ''1970-01-01T$'' @ v @ ''Z'' \<noteq> ''1970-01-01T'' @ v @ ''Z''
   \<and> format_value L (JStr ''12:30:00'') = ''12:30:00''
   \<and> ''1970-01-01T$'' @ format_value L (JStr ''12:30:00'') @ ''Z'' = ''1970-01-01T$12:30:00Z''"
proof -
  have "length (''1970-01-01T$'' @ v @ ''Z'') \<noteq> length (''1970-01-01T'' @ v @ ''Z'')" by simp
  then have "''1970-01-01T$'' @ v @ ''Z'' \<noteq> ''1970-01-01T'' @ v @ ''Z''" by metis
  then show ?thesis by (simp add: deserialize_time_def format_value_def)
qed

subsection \<open>Field names\<close>












subsection \<open>Decimal literals\<close>

lemma digit_not_space: "is_digit c \<Longrightarrow> \<not> is_space c"
  by (auto simp: is_digit_def is_space_def)

lemma digit_not_special:
  "is_digit c \<Longrightarrow> c \<noteq> CHR ''_'' \<and> c \<noteq> CHR ''-'' \<and> c \<noteq> CHR ''+'' \<and> c \<noteq> CHR ''.''"
  by (auto simp: is_digit_def)

lemma strip_id:
  assumes "s \<noteq> []" "\<not> is_space (hd s)" "\<not> is_space (last s)"
  shows "strip s = s"
proof -
  from assms(1,2) have a: "dropWhile is_space s = s" by (cases s) auto
  from assms(1,3) have "dropWhile is_space (rev s) = rev s"
    by (cases "rev s") (auto simp: hd_rev[symmetric] simp del: hd_rev)
  with a show ?thesis by (simp add: strip_def)
qed

lemma str_int_digits_nonzero:
  "ds \<noteq> [] \<Longrightarrow> hd ds \<noteq> CHR ''0'' \<Longrightarrow> str_int_digits ds = ds"
  by (cases ds) (auto simp: str_int_digits_def)

lemma str_int_digits_zero: "str_int_digits (CHR ''0'' # ds) = str_int_digits ds"
  by (simp add: str_int_digits_def)

lemma zeros_split:
  "fd = replicate (length (takeWhile (\<lambda>c. c = CHR ''0'') fd)) (CHR ''0'') @ dropWhile (\<lambda>c. c = CHR ''0'') fd"
proof -
  have "takeWhile (\<lambda>c. c = CHR ''0'') fd
        = replicate (length (takeWhile (\<lambda>c. c = CHR ''0'') fd)) (CHR ''0'')"
    by (rule replicate_length_same[symmetric]) (auto dest: set_takeWhileD)
  then show ?thesis by (metis takeWhile_dropWhile_id)
qed

lemma parse_number_plain:
  assumes "ip \<noteq> []" "list_all is_digit ip" "list_all is_digit fd"
  shows "parse_number (ip @ (if fd = [] then [] else ''.'' @ fd)) = Some (ip, fd, 0)"
proof -
  let ?fp = "if fd = [] then [] else ''.'' @ fd"
  have nd: "\<not> is_digit (CHR ''.'')" by (simp add: is_digit_def)
  have tw: "takeWhile is_digit (ip @ ?fp) = ip"
    using assms(2) nd by (auto simp: list_all_iff takeWhile_append2)
  have dw: "dropWhile is_digit (ip @ ?fp) = ?fp"
    using assms(2) nd by (auto simp: list_all_iff dropWhile_append2)
  have tf: "takeWhile is_digit fd = fd" and df: "dropWhile is_digit fd = []"
    using assms(3) by (auto simp: list_all_iff)
  show ?thesis
    unfolding parse_number_def tw dw using assms(1) by (simp add: tf df)
qed


lemma plain_last_digit:
  assumes "sg = [] \<or> sg = ''-''"
    and "ip \<noteq> []" "list_all is_digit ip" "list_all is_digit fd"
  shows "is_digit (last (sg @ ip @ (if fd = [] then [] else ''.'' @ fd)))"
proof (cases "fd = []")
  case True
  with assms(2,3) show ?thesis by (simp add: list_all_iff)
next
  case False
  with assms(4) show ?thesis by (simp add: list_all_iff)
qed

lemma plain_no_underscore:
  assumes "sg = [] \<or> sg = ''-''"
    and "ip \<noteq> []" "list_all is_digit ip" "list_all is_digit fd"
  shows "\<forall>c \<in> set (sg @ ip @ (if fd = [] then [] else ''.'' @ fd)). c \<noteq> CHR ''_''"
proof -
  have a: "\<forall>c \<in> set ip. c \<noteq> CHR ''_''" using assms(3) digit_not_special by (auto simp: list_all_iff)
  have b: "\<forall>c \<in> set fd. c \<noteq> CHR ''_''" using assms(4) digit_not_special by (auto simp: list_all_iff)
  have c: "\<forall>c \<in> set sg. c \<noteq> CHR ''_''" using assms(1) by auto
  from a b c show ?thesis by auto
qed


lemma split_sign_plain:
  assumes "sg = [] \<or> sg = ''-''" and "ip \<noteq> []" "list_all is_digit ip"
  shows "split_sign (sg @ ip @ fp) = (if sg = [] then 0 else 1, ip @ fp)"
proof (cases "sg = []")
  case True
  from assms(2) obtain c cs where ip: "ip = c # cs" by (cases ip) auto
  with assms(3) have "is_digit c" by simp
  then have "c \<noteq> CHR ''-''" "c \<noteq> CHR ''+''" using digit_not_special by blast+
  then show ?thesis using True by (simp add: split_sign_def ip)
next
  case False
  with assms(1) have "sg = ''-''" by simp
  then show ?thesis by (simp add: split_sign_def)
qed

lemma Decimal_of_str_plain:
  assumes "sg = [] \<or> sg = ''-''"
    and "ip \<noteq> []" "list_all is_digit ip" "list_all is_digit fd"
  shows "Decimal_of_str (sg @ ip @ (if fd = [] then [] else ''.'' @ fd))
         = Inr (Dec (if sg = [] then 0 else 1) (str_int_digits (ip @ fd)) (- int (length fd)))"
proof -
  define fp where "fp = (if fd = [] then [] else ''.'' @ fd)"
  define s where "s = sg @ ip @ fp"
  have hd_ip: "is_digit (hd ip)"
    using assms(2,3) by (cases ip) auto
  have ne: "s \<noteq> []" using assms(2) by (simp add: s_def)
  have h: "\<not> is_space (hd s)"
  proof (cases "sg = []")
    case True
    with assms(2) have "hd s = hd ip" by (simp add: s_def)
    with hd_ip show ?thesis by (simp add: digit_not_space)
  next
    case False
    with assms(1) have "hd s = CHR ''-''" by (simp add: s_def)
    then show ?thesis by (simp add: is_space_def)
  qed
  have "is_digit (last s)" unfolding s_def fp_def by (rule plain_last_digit[OF assms])
  then have l: "\<not> is_space (last s)" by (rule digit_not_space)
  have st: "strip s = s" by (rule strip_id[OF ne h l])
  have "\<forall>c \<in> set s. c \<noteq> CHR ''_''" unfolding s_def fp_def by (rule plain_no_underscore[OF assms])
  then have fl: "filter (\<lambda>c. c \<noteq> CHR ''_'') s = s" by (simp add: filter_id_conv)
  have sp: "split_sign s = (if sg = [] then 0 else 1, ip @ fp)"
    unfolding s_def by (rule split_sign_plain[OF assms(1,2,3)])
  have pn: "parse_number (ip @ fp) = Some (ip, fd, 0)"
    unfolding fp_def by (rule parse_number_plain[OF assms(2,3,4)])
  have "Decimal_of_str s
         = Inr (Dec (if sg = [] then 0 else 1) (str_int_digits (ip @ fd)) (- int (length fd)))"
    unfolding Decimal_of_str_def st fl sp by (simp add: pn)
  then show ?thesis unfolding s_def fp_def .
qed


lemma decimal_str_nonzero_int:
  assumes "ip \<noteq> []" "hd ip \<noteq> CHR ''0''"
  shows "decimal_str (Dec sn (str_int_digits (ip @ fd)) (- int (length fd)))
         = sign_str sn @ ip @ (if fd = [] then [] else ''.'' @ fd)"
proof -
  have ds: "str_int_digits (ip @ fd) = ip @ fd"
    using assms by (intro str_int_digits_nonzero) auto
  have pos: "0 < length ip" using assms(1) by simp
  have "decimal_str (Dec sn (ip @ fd) (- int (length fd)))
         = sign_str sn @ ip @ (if fd = [] then [] else ''.'' @ fd)"
    using pos by (simp add: Let_def)
  then show ?thesis unfolding ds .
qed

lemma str_int_digits_zeros:
  "dropWhile (\<lambda>c. c = CHR ''0'') fd = [] \<Longrightarrow> str_int_digits (''0'' @ fd) = ''0''"
  unfolding str_int_digits_def by (simp del: dropWhile_eq_Nil_conv)

lemma str_int_digits_rest:
  "dropWhile (\<lambda>c. c = CHR ''0'') fd \<noteq> [] \<Longrightarrow>
   str_int_digits (''0'' @ fd) = dropWhile (\<lambda>c. c = CHR ''0'') fd"
  unfolding str_int_digits_def by (simp split: list.splits del: dropWhile_eq_Nil_conv)

lemma decimal_str_zero_int:
  assumes "length (takeWhile (\<lambda>c. c = CHR ''0'') fd) < 6
           \<or> (list_all (\<lambda>c. c = CHR ''0'') fd \<and> length fd \<le> 6)"
  shows "decimal_str (Dec sn (str_int_digits (''0'' @ fd)) (- int (length fd)))
         = sign_str sn @ ''0'' @ (if fd = [] then [] else ''.'' @ fd)"
proof -
  define k where "k = length (takeWhile (\<lambda>c. c = CHR ''0'') fd)"
  define rest where "rest = dropWhile (\<lambda>c. c = CHR ''0'') fd"
  have fd: "fd = replicate k (CHR ''0'') @ rest"
    unfolding k_def rest_def by (rule zeros_split)
  have len: "length fd = k + length rest" by (subst fd) simp
  show ?thesis
  proof (cases "rest = []")
    case True
    then have all: "fd = replicate k (CHR ''0'')" using fd by simp
    have k6: "k \<le> 6" using assms len True unfolding k_def[symmetric] by auto
    have ds: "str_int_digits (''0'' @ fd) = ''0''"
      using True unfolding rest_def by (rule str_int_digits_zeros)
    show ?thesis
    proof (cases k)
      case 0
      have "decimal_str (Dec sn ''0'' (- int (length ([]::string)))) = sign_str sn @ ''0''"
        by simp
      then show ?thesis unfolding ds using all 0 by simp
    next
      case (Suc j)
      have r: "replicate j (CHR ''0'') @ ''0'' = replicate (Suc j) (CHR ''0'')"
        by (simp add: replicate_append_same)
      have "decimal_str (Dec sn ''0'' (- int (Suc j)))
            = sign_str sn @ ''0'' @ ''.'' @ replicate j (CHR ''0'') @ ''0''"
        using k6 Suc by simp
      then have "decimal_str (Dec sn ''0'' (- int (Suc j)))
            = sign_str sn @ ''0'' @ ''.'' @ replicate (Suc j) (CHR ''0'')"
        unfolding r .
      moreover have "fd \<noteq> []" "length fd = Suc j" using all Suc by auto
      ultimately show ?thesis unfolding ds using all Suc by simp
    qed
  next
    case False
    then have nz: "\<not> list_all (\<lambda>c. c = CHR ''0'') fd"
      unfolding rest_def by (auto simp: list_all_iff)
    with assms have k6: "k < 6" unfolding k_def by blast
    have ds: "str_int_digits (''0'' @ fd) = rest"
      using False unfolding rest_def by (rule str_int_digits_rest)
    have fdne: "fd \<noteq> []" using False rest_def by auto
    have "decimal_str (Dec sn rest (- int (k + length rest)))
          = sign_str sn @ ''0'' @ ''.'' @ replicate k (CHR ''0'') @ rest"
      using k6 False by simp
    then show ?thesis unfolding ds len using fdne by (simp add: fd[symmetric])
  qed
qed


text \<open>
  C8, as the code has it. A plain literal is an optional minus sign \<open>sg\<close>, an integer part
  \<open>ip\<close> of digits without superfluous leading zeros and, when \<open>fd\<close> is not empty, a point
  and the fraction digits \<open>fd\<close>. The converter keeps its digits and its exponent exactly, and
  \<open>str\<close> of the result is the literal itself, provided that, when the integer part is \<open>0\<close>,
  fewer than six zeros follow the point directly (or all fraction digits are zeros and
  there are at most six of them).
\<close>

theorem deserialize_decimal_plain_roundtrip:
  assumes "sg = [] \<or> sg = ''-''"
    and "ip \<noteq> []" "list_all is_digit ip" "ip = ''0'' \<or> hd ip \<noteq> CHR ''0''"
    and "list_all is_digit fd"
    and "ip = ''0'' \<longrightarrow>
           length (takeWhile (\<lambda>c. c = CHR ''0'') fd) < 6
           \<or> (list_all (\<lambda>c. c = CHR ''0'') fd \<and> length fd \<le> 6)"
  shows "deserialize_decimal L (JStr (sg @ ip @ (if fd = [] then [] else ''.'' @ fd))) for_model
           = Inr (PDecimal (Dec (if sg = [] then 0 else 1) (str_int_digits (ip @ fd))
                                (- int (length fd))))
       \<and> decimal_str (Dec (if sg = [] then 0 else 1) (str_int_digits (ip @ fd))
                           (- int (length fd)))
           = sg @ ip @ (if fd = [] then [] else ''.'' @ fd)"
proof -
  have parse: "Decimal_of_str (sg @ ip @ (if fd = [] then [] else ''.'' @ fd))
         = Inr (Dec (if sg = [] then 0 else 1) (str_int_digits (ip @ fd)) (- int (length fd)))"
    by (rule Decimal_of_str_plain[OF assms(1,2,3,5)])
  have sg: "sign_str (if sg = [] then 0 else 1) = sg"
    using assms(1) by (auto simp: sign_str_def)
  have "decimal_str (Dec (if sg = [] then 0 else 1) (str_int_digits (ip @ fd)) (- int (length fd)))
         = sign_str (if sg = [] then 0 else 1) @ ip @ (if fd = [] then [] else ''.'' @ fd)"
  proof (cases "ip = ''0''")
    case True
    with assms(6) show ?thesis using decimal_str_zero_int[of fd] by simp
  next
    case False
    with assms(4) have "hd ip \<noteq> CHR ''0''" by simp
    from decimal_str_nonzero_int[OF assms(2) this] show ?thesis .
  qed
  then have str: "decimal_str (Dec (if sg = [] then 0 else 1) (str_int_digits (ip @ fd))
                           (- int (length fd)))
           = sg @ ip @ (if fd = [] then [] else ''.'' @ fd)"
    unfolding sg .
  have des: "deserialize_decimal L (JStr (sg @ ip @ (if fd = [] then [] else ''.'' @ fd))) for_model
           = Inr (PDecimal (Dec (if sg = [] then 0 else 1) (str_int_digits (ip @ fd))
                                (- int (length fd))))"
    unfolding deserialize_decimal_def Decimal_def by (simp only: json.case parse sum.case)
  from des str show ?thesis by (rule conjI)
qed

theorem deserialize_decimal_plain_roundtrip_witness:
  "deserialize_decimal example_lib (JStr ''10.005'') False = Inr (PDecimal (Dec 0 ''10005'' (- 3)))
   \<and> decimal_str (Dec 0 ''10005'' (- 3)) = ''10.005''"
  using deserialize_decimal_plain_roundtrip[of "[]" "''10''" "''005''" example_lib False]
  by (simp add: is_digit_def str_int_digits_def)

text \<open>
  C8, as stated, fails for small values: \<open>0.0000001\<close> is converted exactly (digits \<open>1\<close>,
  exponent \<open>-7\<close>), and \<open>str\<close> formats the result in scientific notation, \<open>1E-7\<close>.
\<close>

theorem deserialize_decimal_roundtrip_counterexample:
  "deserialize_decimal example_lib (JStr ''0.0000001'') False = Inr (PDecimal (Dec 0 ''1'' (- 7)))
   \<and> decimal_str (Dec 0 ''1'' (- 7)) = ''1E-7''
   \<and> ''1E-7'' \<noteq> ''0.0000001''"
  by code_simp

subsection \<open>Malformed leaves\<close>

lemma deserialize_items_append:
  "deserialize_items L fm (pre @ xs) acc =
     (case deserialize_items L fm pre acc of
        Inl e \<Rightarrow> Inl e
      | Inr acc' \<Rightarrow> deserialize_items L fm xs acc')"
  by (induction pre arbitrary: acc) (auto split: sum.splits)

lemma array_loop_append:
  "array_loop L fm (pre @ xs) arr =
     (case array_loop L fm pre arr of
        Inl e \<Rightarrow> Inl e
      | Inr arr' \<Rightarrow> array_loop L fm xs arr')"
  by (induction pre arbitrary: arr) (auto simp: array_loop_Cons split: sum.splits)

lemma traverse_append:
  "traverse f (xs @ ys) =
     (case traverse f xs of
        Inl e \<Rightarrow> Inl e
      | Inr rs \<Rightarrow> (case traverse f ys of Inl e \<Rightarrow> Inl e | Inr rs' \<Rightarrow> Inr (rs @ rs')))"
  by (induction xs) (auto split: sum.splits)

lemma deserialize_array_list:
  "deserialize_array L (JArr es) fm =
     (case array_loop L fm es [] of Inl e \<Rightarrow> Inl e | Inr arr \<Rightarrow> Inr (PList arr))"
  by (simp add: deserialize_array.simps iterate_def)

lemma lacks_subfield_row:
  assumes "lacks_subfield leaf"
  shows "getitem leaf ''prisma__value'' = Inl (lookup_error ''prisma__value'' ''prisma__type'' leaf)
         \<or> (\<exists>v. getitem leaf ''prisma__value'' = Inr v)
            \<and> getitem leaf ''prisma__type'' = Inl (lookup_error ''prisma__value'' ''prisma__type'' leaf)"
  using assms
  by (cases leaf) (auto simp: lacks_subfield_def getitem_def lookup_error_def split: option.splits)

lemma lacks_subfield_entry:
  assumes "lacks_subfield leaf"
  shows "getitem leaf ''prisma__type'' = Inl (lookup_error ''prisma__type'' ''prisma__value'' leaf)
         \<or> (\<exists>v. getitem leaf ''prisma__type'' = Inr v)
            \<and> getitem leaf ''prisma__value'' = Inl (lookup_error ''prisma__type'' ''prisma__value'' leaf)"
  using assms
  by (cases leaf) (auto simp: lacks_subfield_def getitem_def lookup_error_def split: option.splits)

lemma row_step_lacking:
  assumes "lacks_subfield leaf"
  shows "deserialize_items L fm ((key, leaf) # items) acc
           = Inl (lookup_error ''prisma__value'' ''prisma__type'' leaf)"
proof -
  from lacks_subfield_row[OF assms] show ?thesis
  proof (elim disjE conjE exE)
    assume "getitem leaf ''prisma__value'' = Inl (lookup_error ''prisma__value'' ''prisma__type'' leaf)"
    then show ?thesis by simp
  next
    fix v
    assume "getitem leaf ''prisma__value'' = Inr v"
      "getitem leaf ''prisma__type'' = Inl (lookup_error ''prisma__value'' ''prisma__type'' leaf)"
    then show ?thesis by simp
  qed
qed

lemma array_step_lacking:
  assumes "lacks_subfield entry"
  shows "array_loop L fm (entry # rest) arr
           = Inl (lookup_error ''prisma__type'' ''prisma__value'' entry)"
proof -
  from lacks_subfield_entry[OF assms] show ?thesis
  proof (elim disjE conjE exE)
    assume "getitem entry ''prisma__type'' = Inl (lookup_error ''prisma__type'' ''prisma__value'' entry)"
    then show ?thesis by (simp add: array_loop_Cons)
  next
    fix v
    assume "getitem entry ''prisma__type'' = Inr v"
      "getitem entry ''prisma__value'' = Inl (lookup_error ''prisma__type'' ''prisma__value'' entry)"
    then show ?thesis by (simp add: array_loop_Cons)
  qed
qed

lemma convert_array: "convert L (JStr ''array'') v fm = deserialize_array L v fm"
  by (simp add: convert_def lookup_def DESERIALIZERS_def)

lemma malformed_stops_loops:
  "malformed leaf \<Longrightarrow>
   (\<forall>key items acc. fails (deserialize_items L fm ((key, leaf) # items) acc))
   \<and> (\<forall>rest arr. fails (array_loop L fm (leaf # rest) arr))"
proof (induction rule: malformed.induct)
  case (here leaf)
  then show ?case
    by (simp only: row_step_lacking array_step_lacking fails_simps simp_thms)
next
  case (nested leaf entries entry)
  from nested.hyps(3) obtain pre rest where sp: "entries = pre @ entry # rest"
    by (meson split_list)
  from nested.IH have "fails (array_loop L fm (entry # rest) arr)" for arr by blast
  then have "fails (array_loop L fm entries [])"
    unfolding sp array_loop_append fails_bind by (cases "array_loop L fm pre []") auto
  then have c: "fails (convert L (JStr ''array'') (JArr entries) fm)"
    by (simp add: convert_array deserialize_array_list fails_bind)
  then obtain e where "convert L (JStr ''array'') (JArr entries) fm = Inl e"
    by (cases "convert L (JStr ''array'') (JArr entries) fm") auto
  with nested.hyps(1,2) show ?case
    by (simp add: array_loop_Cons)
qed

lemma traverse_fails:
  "x \<in> set xs \<Longrightarrow> fails (f x) \<Longrightarrow> fails (traverse f xs)"
  by (induction xs) (auto simp: fails_bind not_fails[symmetric])


lemma deserialize_raw_results_traverse:
  "deserialize_raw_results L raw_list model =
     traverse (\<lambda>obj. deserialize_prisma_object L obj (model \<noteq> None) model) raw_list"
  by (cases model) (simp_all add: deserialize_raw_results_def)

text \<open>
  C2, as the code has it. When a row has a field whose leaf is malformed (at the top or
  inside an array), \<open>_deserialize_prisma_object\<close> raises for this row, with or without a
  model, and \<open>deserialize_raw_results\<close> raises for any list that contains the row: no row
  is returned, partial or not. The exception is the first one raised in processing
  order. In a row: the exception of an earlier field, if one raises; otherwise, for a
  leaf that lacks a sub-field, the \<open>KeyError\<close> of the missing key (the value is looked up
  first) or \<open>TypeError\<close> when the leaf is no dictionary, and for an array leaf the
  exception of its array. In an array: the exception of an earlier entry, if one raises;
  otherwise, for an entry that lacks a sub-field, the \<open>KeyError\<close> of the missing key (the
  type is looked up first) or \<open>TypeError\<close>, and for an entry that is an array the exception
  of that array. In a result set: the exception of an earlier row, if one raises, and
  otherwise that of the row.
\<close>

theorem malformed_leaf_fails_whole_call:
  assumes "raw_obj = pre @ (key, leaf) # post" and "raw_list = before @ raw_obj # after"
  shows "(malformed leaf \<longrightarrow>
            fails (deserialize_prisma_object L raw_obj for_model model)
            \<and> fails (deserialize_raw_results L raw_list model))
       \<and> (\<forall>e. deserialize_items L for_model pre [] = Inl e \<longrightarrow>
              deserialize_prisma_object L raw_obj for_model model = Inl e)
       \<and> (\<forall>new_obj. deserialize_items L for_model pre [] = Inr new_obj \<longrightarrow>
              (lacks_subfield leaf \<longrightarrow>
                 deserialize_prisma_object L raw_obj for_model model
                   = Inl (lookup_error ''prisma__value'' ''prisma__type'' leaf))
              \<and> (\<forall>value e. getitem leaf ''prisma__type'' = Inr (JStr ''array'')
                     \<and> getitem leaf ''prisma__value'' = Inr value
                     \<and> deserialize_array L value for_model = Inl e \<longrightarrow>
                   deserialize_prisma_object L raw_obj for_model model = Inl e))
       \<and> (\<forall>e. deserialize_array L (JArr epre) for_model = Inl e \<longrightarrow>
              deserialize_array L (JArr (epre @ entry # epost)) for_model = Inl e)
       \<and> (\<forall>arr. deserialize_array L (JArr epre) for_model = Inr arr \<longrightarrow>
              (lacks_subfield entry \<longrightarrow>
                 deserialize_array L (JArr (epre @ entry # epost)) for_model
                   = Inl (lookup_error ''prisma__type'' ''prisma__value'' entry))
              \<and> (\<forall>value e. getitem entry ''prisma__type'' = Inr (JStr ''array'')
                     \<and> getitem entry ''prisma__value'' = Inr value
                     \<and> deserialize_array L value for_model = Inl e \<longrightarrow>
                   deserialize_array L (JArr (epre @ entry # epost)) for_model = Inl e))
       \<and> (\<forall>e. deserialize_raw_results L before model = Inl e \<longrightarrow>
              deserialize_raw_results L raw_list model = Inl e)
       \<and> (\<forall>rs e. deserialize_raw_results L before model = Inr rs
              \<and> deserialize_prisma_object L raw_obj (model \<noteq> None) model = Inl e \<longrightarrow>
              deserialize_raw_results L raw_list model = Inl e)"
proof -
  have always: "fails (deserialize_prisma_object L raw_obj for_model model)
            \<and> fails (deserialize_raw_results L raw_list model)" if m: "malformed leaf"
  proof -
    have items: "fails (deserialize_items L fm raw_obj [])" for fm
      unfolding assms(1) deserialize_items_append fails_bind
      using malformed_stops_loops[OF m, of L fm]
      by (cases "deserialize_items L fm pre []") auto
    have one: "fails (deserialize_prisma_object L raw_obj fm model)" for fm
      using items[of fm] unfolding deserialize_prisma_object_def
      by (cases "deserialize_items L fm raw_obj []") auto
    have "raw_obj \<in> set raw_list" by (simp add: assms(2))
    from traverse_fails[OF this, of "\<lambda>obj. deserialize_prisma_object L obj (model \<noteq> None) model"] one
    have "fails (deserialize_raw_results L raw_list model)"
      by (simp add: deserialize_raw_results_traverse)
    with one show ?thesis by blast
  qed
  have earlier: "deserialize_prisma_object L raw_obj for_model model = Inl e"
    if "deserialize_items L for_model pre [] = Inl e" for e
    using that by (simp add: assms(1) deserialize_prisma_object_def deserialize_items_append)
  have lacking: "deserialize_prisma_object L raw_obj for_model model
                   = Inl (lookup_error ''prisma__value'' ''prisma__type'' leaf)"
    if "deserialize_items L for_model pre [] = Inr new_obj" "lacks_subfield leaf" for new_obj
    using that
    by (simp add: assms(1) deserialize_prisma_object_def deserialize_items_append
        row_step_lacking del: deserialize_items.simps)
  have array_field: "deserialize_prisma_object L raw_obj for_model model = Inl err"
    if "deserialize_items L for_model pre [] = Inr new_obj"
      "getitem leaf ''prisma__type'' = Inr (JStr ''array'')"
      "getitem leaf ''prisma__value'' = Inr v"
      "deserialize_array L v for_model = Inl err" for new_obj v err
    using that
    by (simp add: assms(1) deserialize_prisma_object_def deserialize_items_append convert_array)
  have arr_earlier: "deserialize_array L (JArr (epre @ entry # epost)) for_model = Inl e"
    if "deserialize_array L (JArr epre) for_model = Inl e" for e
  proof -
    from that have "array_loop L for_model epre [] = Inl e"
      by (simp add: deserialize_array_list split: sum.splits)
    then show ?thesis by (simp add: deserialize_array_list array_loop_append)
  qed
  have arr_ok: "\<exists>a. array_loop L for_model epre [] = Inr a"
    if "deserialize_array L (JArr epre) for_model = Inr arr" for arr
    using that by (simp add: deserialize_array_list split: sum.splits)
  have arr_lacking: "deserialize_array L (JArr (epre @ entry # epost)) for_model
                   = Inl (lookup_error ''prisma__type'' ''prisma__value'' entry)"
    if "deserialize_array L (JArr epre) for_model = Inr arr" "lacks_subfield entry" for arr
  proof -
    from arr_ok[OF that(1)] obtain a where "array_loop L for_model epre [] = Inr a" ..
    then show ?thesis
      by (simp add: deserialize_array_list array_loop_append array_step_lacking[OF that(2)])
  qed
  have arr_nested: "deserialize_array L (JArr (epre @ entry # epost)) for_model = Inl err"
    if "deserialize_array L (JArr epre) for_model = Inr arr"
      "getitem entry ''prisma__type'' = Inr (JStr ''array'')"
      "getitem entry ''prisma__value'' = Inr v"
      "deserialize_array L v for_model = Inl err" for arr v err
  proof -
    from arr_ok[OF that(1)] obtain a where "array_loop L for_model epre [] = Inr a" ..
    with that(2,3,4) show ?thesis
      by (simp add: deserialize_array_list array_loop_append array_loop_Cons convert_array)
  qed
  have rows_earlier: "deserialize_raw_results L raw_list model = Inl e"
    if "deserialize_raw_results L before model = Inl e" for e
    using that by (simp add: deserialize_raw_results_traverse assms(2) traverse_append)
  have rows_this: "deserialize_raw_results L raw_list model = Inl e"
    if "deserialize_raw_results L before model = Inr rs"
      "deserialize_prisma_object L raw_obj (model \<noteq> None) model = Inl e" for rs e
    using that by (simp add: deserialize_raw_results_traverse assms(2) traverse_append)
  show ?thesis
    by (intro conjI allI impI; (elim conjE)?)
       (blast intro: always[THEN conjunct1] always[THEN conjunct2] earlier lacking array_field
          arr_earlier arr_lacking arr_nested rows_earlier rows_this)+
qed


theorem malformed_leaf_fails_whole_call_witness:
  "deserialize_prisma_object example_lib
      [(''n'', JObj [(''prisma__type'', JStr ''int''), (''prisma__value'', JInt 1)]),
       (''m'', JObj [(''prisma__type'', JStr ''int'')])]
      False (None :: (pydict \<Rightarrow> error + unit) option)
     = Inl (KeyError ''prisma__value'')
   \<and> deserialize_prisma_object example_lib
      [(''n'', JObj [(''prisma__type'', JStr ''int''), (''prisma__value'', JInt 1)]),
       (''m'', JNull)]
      False (None :: (pydict \<Rightarrow> error + unit) option)
     = Inl TypeError
   \<and> deserialize_raw_results example_lib
      [[(''n'', JObj [(''prisma__type'', JStr ''int''), (''prisma__value'', JInt 1)]),
        (''xs'', JObj [(''prisma__type'', JStr ''array''),
                       (''prisma__value'',
                        JArr [JObj [(''prisma__type'', JStr ''decimal''), (''prisma__value'', JStr ''x'')],
                              JObj [(''prisma__type'', JStr ''int'')]])])]]
      (None :: (pydict \<Rightarrow> error + unit) option)
     = Inl InvalidOperation
   \<and> deserialize_array example_lib
      (JArr [JObj [(''prisma__type'', JStr ''int''), (''prisma__value'', JInt 1)],
             JObj [(''prisma__value'', JInt 2)]]) False
     = Inl (KeyError ''prisma__type'')"
proof -
  let ?ok = "JObj [(''prisma__type'', JStr ''int''), (''prisma__value'', JInt 1)]"
  let ?n = "(''n'', ?ok)"
  let ?bad = "JObj [(''prisma__type'', JStr ''int'')]"
  let ?notype = "JObj [(''prisma__value'', JInt 2)]"
  let ?dx = "JObj [(''prisma__type'', JStr ''decimal''), (''prisma__value'', JStr ''x'')]"
  let ?arr = "JObj [(''prisma__type'', JStr ''array''), (''prisma__value'', JArr [?dx, ?bad])]"
  let ?row1 = "[?n, (''m'', ?bad)]"
  let ?row2 = "[?n, (''m'', JNull)]"
  let ?row3 = "[?n, (''xs'', ?arr)]"
  let ?none = "None :: (pydict \<Rightarrow> error + unit) option"
  have pre: "deserialize_items example_lib False [?n] [] = Inr [(''n'', Raw (JInt 1))]"
    by (simp add: getitem_def convert_def lookup_def DESERIALIZERS_def)
  have l1: "lacks_subfield ?bad" and l2: "lacks_subfield JNull" and l3: "lacks_subfield ?notype"
    by (simp_all add: lacks_subfield_def)
  have e1: "lookup_error ''prisma__value'' ''prisma__type'' ?bad = KeyError ''prisma__value''"
    and e2: "lookup_error ''prisma__value'' ''prisma__type'' JNull = TypeError"
    and e3: "lookup_error ''prisma__type'' ''prisma__value'' ?notype = KeyError ''prisma__type''"
    by (simp_all add: lookup_error_def)
  have sp1: "?row1 = [?n] @ (''m'', ?bad) # []" by simp
  have sp2: "?row2 = [?n] @ (''m'', JNull) # []" by simp
  have sp3: "?row3 = [?n] @ (''xs'', ?arr) # []" by simp
  have a: "deserialize_prisma_object example_lib ?row1 False ?none = Inl (KeyError ''prisma__value'')"
    using malformed_leaf_fails_whole_call[OF sp1 refl, where L = example_lib and for_model = False and model = ?none
                   and before = "[]" and after = "[]" and epre = "[]" and entry = JNull
                   and epost = "[]"]
      pre l1 unfolding e1[symmetric] by blast
  have b: "deserialize_prisma_object example_lib ?row2 False ?none = Inl TypeError"
    using malformed_leaf_fails_whole_call[OF sp2 refl, where L = example_lib and for_model = False and model = ?none
                   and before = "[]" and after = "[]" and epre = "[]" and entry = JNull
                   and epost = "[]"]
      pre l2 unfolding e2[symmetric] by blast
  have dx: "deserialize_array example_lib (JArr [?dx]) False = Inl InvalidOperation"
    by (simp add: deserialize_array_list array_loop_Cons getitem_def convert_def lookup_def
        DESERIALIZERS_def deserialize_decimal_def Decimal_def Decimal_of_str_def strip_def
        is_space_def split_sign_def parse_number_def is_digit_def parse_special_def lower_def)
  have okarr: "deserialize_array example_lib (JArr [?ok]) False = Inr (PList [Raw (JInt 1)])"
    by (simp add: deserialize_array_list array_loop_Cons getitem_def convert_def lookup_def
        DESERIALIZERS_def)
  note t3 = malformed_leaf_fails_whole_call[OF sp3 refl, where L = example_lib and for_model = False and model = ?none
                   and before = "[]" and after = "[]" and epre = "[?dx]" and entry = ?bad
                   and epost = "[]"]
  from t3 dx have arr: "deserialize_array example_lib (JArr ([?dx] @ ?bad # [])) False = Inl InvalidOperation"
    by blast
  have g: "getitem ?arr ''prisma__type'' = Inr (JStr ''array'')"
    "getitem ?arr ''prisma__value'' = Inr (JArr ([?dx] @ ?bad # []))"
    by (simp_all add: getitem_def)
  from t3 pre g arr
  have row: "deserialize_prisma_object example_lib ?row3 False ?none = Inl InvalidOperation"
    by blast
  have nil: "deserialize_raw_results example_lib [] ?none = Inr []"
    by (simp add: deserialize_raw_results_def)
  from t3 nil row
  have "deserialize_raw_results example_lib ([] @ ?row3 # []) ?none = Inl InvalidOperation"
    by (simp only: simp_thms)
  then have c: "deserialize_raw_results example_lib [?row3] ?none = Inl InvalidOperation"
    by simp
  have "deserialize_array example_lib (JArr ([?ok] @ ?notype # [])) False
          = Inl (lookup_error ''prisma__type'' ''prisma__value'' ?notype)"
    using malformed_leaf_fails_whole_call[OF sp1 refl, where L = example_lib and for_model = False and model = ?none
                   and before = "[]" and after = "[]" and epre = "[?ok]" and entry = ?notype
                   and epost = "[]"]
      okarr l3 by blast
  then have d: "deserialize_array example_lib (JArr [?ok, ?notype]) False = Inl (KeyError ''prisma__type'')"
    unfolding e3 by simp
  from a b c d show ?thesis by blast
qed

text \<open>
  C2, as stated, fails when a field before the malformed leaf cannot be converted: the
  row is deserialized in order, and the exception of the \<open>decimal\<close> field comes first.
\<close>

theorem malformed_leaf_error_kind_counterexample:
  "lacks_subfield (JObj [(''prisma__type'', JStr ''int'')])
   \<and> deserialize_raw_results example_lib
      [[(''price'', JObj [(''prisma__type'', JStr ''decimal''), (''prisma__value'', JStr ''x'')]),
        (''m'', JObj [(''prisma__type'', JStr ''int'')])]]
      (None :: (pydict \<Rightarrow> error + unit) option)
     = Inl InvalidOperation
   \<and> InvalidOperation \<noteq> KeyError ''prisma__value''"
  by (simp add: lacks_subfield_def deserialize_raw_results_def deserialize_prisma_object_def
      getitem_def convert_def lookup_def DESERIALIZERS_def
      deserialize_decimal_def Decimal_def Decimal_of_str_def strip_def is_space_def
      split_sign_def parse_number_def is_digit_def parse_special_def lower_def)

end
